theory Spec2Isabelle
  imports Main "HOL-Library.Multiset"
begin

text \<open>
  The scripts of ask-caa-nz that build the corpus of the Civil Aviation Rules, as
  functions: the normalizer of the PDF-to-markdown converters, the front-matter reader and
  the combiner of \<open>combine_md.js\<close>, and the two downloaders with their
  \<open>fetchWithRedirects\<close>. Files, the network, the console and the clock are explicit:
  the file system is a map from paths to texts, the network a function of the requests,
  and what a script does is the list of its events.
\<close>

section \<open>JavaScript strings\<close>

text \<open>
  A JavaScript string is modelled as a \<^typ>\<open>string\<close>: one \<^typ>\<open>char\<close> per code unit, for
  code units in the range 0..255. A \<open>Buffer\<close> is a list of such units too (one per byte).
  The functions of this section are the library methods the scripts call:
  \<open>String.prototype.split\<close>, \<open>trim\<close>, \<open>trimEnd\<close>, \<open>padStart\<close>, \<open>Array.prototype.join\<close>
  and the two regular expressions \<open>/\r?\n/\<close> and \<open>/\s+$/\<close>.
\<close>

definition isSpace :: "char \<Rightarrow> bool" where
  \<comment> \<open>The class \<open>\s\<close> (white space and line terminators), which is also what \<open>trim\<close> strips:
      TAB, LF, VT, FF, CR, SPACE and NBSP are its members below 256.\<close>
  "isSpace c = (c = CHR 0x09 \<or> c = CHR 0x0A \<or> c = CHR 0x0B \<or> c = CHR 0x0C \<or> c = CHR 0x0D
      \<or> c = CHR 0x20 \<or> c = CHR 0xA0)"

definition trimEnd :: "string \<Rightarrow> string" where
  \<comment> \<open>\<open>s.trimEnd()\<close>, and \<open>s.replace(/\s+$/, '')\<close>: the longest white suffix is removed.\<close>
  "trimEnd s = rev (dropWhile isSpace (rev s))"

definition trim :: "string \<Rightarrow> string" where
  "trim s = dropWhile isSpace (trimEnd s)"

fun splitLines :: "string \<Rightarrow> string list" where
  \<comment> \<open>\<open>text.split(/\r?\n/)\<close>: a separator is LF, or CR immediately followed by LF.\<close>
  "splitLines [] = [[]]"
| "splitLines (c # cs) =
     (if c = CHR 0x0A then [] # splitLines cs
      else if c = CHR 0x0D \<and> take 1 cs = [CHR 0x0A] then splitLines cs
      else (case splitLines cs of [] \<Rightarrow> [[c]] | l # ls \<Rightarrow> (c # l) # ls))"

fun splitOn :: "char \<Rightarrow> string \<Rightarrow> string list" where
  \<comment> \<open>\<open>s.split(sep)\<close> for a separator of one character.\<close>
  "splitOn sep [] = [[]]"
| "splitOn sep (c # cs) =
     (if c = sep then [] # splitOn sep cs
      else (case splitOn sep cs of [] \<Rightarrow> [[c]] | l # ls \<Rightarrow> (c # l) # ls))"

fun joinWith :: "string \<Rightarrow> string list \<Rightarrow> string" where
  \<comment> \<open>\<open>xs.join(sep)\<close>\<close>
  "joinWith sep [] = []"
| "joinWith sep [x] = x"
| "joinWith sep (x # y # ys) = x @ sep @ joinWith sep (y # ys)"

section \<open>The markdown normalizer\<close>

text \<open>
  \<open>normalizeTextToMarkdown\<close> is the same function in the three conversion scripts. Its loop
  keeps the array \<open>compact\<close> and the counter \<open>blankCount\<close>; \<open>normalizeStep\<close> is one
  iteration of the loop on that pair.
\<close>

definition normalizeStep :: "string list \<times> nat \<Rightarrow> string \<Rightarrow> string list \<times> nat" where
  "normalizeStep st line =
     (case st of (compact, blankCount) \<Rightarrow>
        (let trimmed = trimEnd line in
         if trimmed = [] then
           (if blankCount + 1 \<le> 2 then compact @ [[]] else compact, blankCount + 1)
         else (compact @ [trimmed], 0)))"

definition compactLines :: "string list \<Rightarrow> string list" where
  \<comment> \<open>the array \<open>compact\<close> when the loop over \<open>lines\<close> ends\<close>
  "compactLines lines = fst (foldl normalizeStep ([], 0) lines)"

definition normalizeTextToMarkdown :: "string \<Rightarrow> string" where
  "normalizeTextToMarkdown text = joinWith [CHR 0x0A] (compactLines (splitLines text))"

text \<open>
  The loop as a recursive function of the counter, for the proofs: it returns what the
  remaining iterations push.
\<close>

fun pushed :: "nat \<Rightarrow> string list \<Rightarrow> string list" where
  "pushed k [] = []"
| "pushed k (line # rest) =
     (if trimEnd line = [] then
        (if k + 1 \<le> 2 then [] # pushed (k + 1) rest else pushed (k + 1) rest)
      else trimEnd line # pushed 0 rest)"

definition isBlank :: "string \<Rightarrow> bool" where
  \<comment> \<open>a blank line: nothing but white space\<close>
  "isBlank l = list_all isSpace l"

fun hasBlankRun3 :: "string list \<Rightarrow> bool" where
  \<comment> \<open>three blank lines in a row, somewhere\<close>
  "hasBlankRun3 (a # b # c # rest) =
     ((isBlank a \<and> isBlank b \<and> isBlank c) \<or> hasBlankRun3 (b # c # rest))"
| "hasBlankRun3 _ = False"

definition noTrailingSpace :: "string \<Rightarrow> bool" where
  "noTrailingSpace l = (l = [] \<or> \<not> isSpace (last l))"

definition leadingBlanks :: "string list \<Rightarrow> nat" where
  \<comment> \<open>how many blank lines a list of lines starts with\<close>
  "leadingBlanks ls = length (takeWhile isBlank ls)"

section \<open>Numbers as text\<close>

fun showNat :: "nat \<Rightarrow> string" where
  \<comment> \<open>\<open>String(n)\<close> for a natural number: its decimal digits\<close>
  "showNat n =
     (if n < 10 then [''0123456789'' ! n]
      else showNat (n div 10) @ [''0123456789'' ! (n mod 10)])"

declare showNat.simps [simp del]

definition padStart :: "nat \<Rightarrow> char \<Rightarrow> string \<Rightarrow> string" where
  "padStart n c s = replicate (n - length s) c @ s"

definition zeroPadPart :: "nat \<Rightarrow> string" where
  "zeroPadPart p = padStart 3 (CHR ''0'') (showNat p)"

section \<open>The manifest and the values of the YAML library\<close>

text \<open>
  An entry of the manifest \<open>car.yaml\<close>. The identifier \<open>part\<close> is a number; the two
  path overrides are optional.
\<close>

record entry =
  part :: nat
  name :: string
  url :: string
  pdf :: "string option"
  md :: "string option"

text \<open>
  What \<open>YAML.parse\<close> returns. Numbers are the integers (the numbers the conversion scripts
  write into front matter are page counts).
\<close>

datatype yaml =
  YNull | YBool bool | YNum int | YStr string | YSeq "yaml list" | YMap "(string \<times> yaml) list"

fun truthy :: "yaml \<Rightarrow> bool" where
  \<comment> \<open>what JavaScript's \<open>||\<close> and \<open>&&\<close> test\<close>
  "truthy YNull = False"
| "truthy (YBool b) = b"
| "truthy (YNum n) = (n \<noteq> 0)"
| "truthy (YStr s) = (s \<noteq> [])"
| "truthy (YSeq xs) = True"
| "truthy (YMap kvs) = True"

fun getProp :: "yaml \<Rightarrow> string \<Rightarrow> yaml option" where
  \<comment> \<open>\<open>meta.key\<close> for a key of the front matter; \<open>None\<close> is \<open>undefined\<close>\<close>
  "getProp (YMap kvs) k = map_of kvs k"
| "getProp v k = None"

text \<open>
  The functions of Node and of the \<open>yaml\<close> package that the scripts call and this
  repository does not define are parameters of the model: \<open>yamlParse\<close> returns \<open>None\<close>
  where \<open>YAML.parse\<close> throws.
\<close>

record lib =
  yamlParse :: "string \<Rightarrow> yaml option"
  yamlStringify :: "(string \<times> yaml) list \<Rightarrow> string"
  pathIsAbsolute :: "string \<Rightarrow> bool"
  pathJoin :: "string list \<Rightarrow> string"
  pathResolve :: "string \<Rightarrow> string \<Rightarrow> string"
  pathDirname :: "string \<Rightarrow> string"
  resolveUrl :: "string \<Rightarrow> string \<Rightarrow> string"
  projectRoot :: string

section \<open>Front matter\<close>

function findClose :: "string list \<Rightarrow> nat \<Rightarrow> nat" where
  \<comment> \<open>\<open>while (i < lines.length && lines[i].trim() !== '---') i += 1\<close>\<close>
  "findClose lines i =
     (if i < length lines \<and> trim (lines ! i) \<noteq> ''---'' then findClose lines (i + 1) else i)"
  by pat_completeness auto
termination
  by (relation "measure (\<lambda>(lines, i). length lines - i)") auto

declare findClose.simps [simp del]

definition extractFrontMatterAndBody :: "(string \<Rightarrow> yaml option) \<Rightarrow> string \<Rightarrow> yaml \<times> string" where
  "extractFrontMatterAndBody parse mdText =
     (let lines = splitLines mdText in
      if (case lines of [] \<Rightarrow> True | l0 # rest \<Rightarrow> trim l0 \<noteq> ''---'') then (YMap [], mdText)
      else
        (let i = findClose lines 1 in
         if i \<ge> length lines then (YMap [], mdText)
         else
           (let yamlText = joinWith [CHR 0x0A] (take (i - 1) (drop 1 lines));
                bodyText = joinWith [CHR 0x0A] (drop (i + 1) lines);
                meta = (case parse yamlText of
                          None \<Rightarrow> YMap []
                        | Some v \<Rightarrow> if truthy v then v else YMap [])
            in (meta, bodyText))))"

section \<open>The corpus combiner (combine\_md.js)\<close>

definition emitRun :: "nat \<Rightarrow> string" where
  \<comment> \<open>a run of \<open>k\<close> newlines after \<open>replace(/\n{3,}/g, '\n\n')\<close>\<close>
  "emitRun k = replicate (if 3 \<le> k then 2 else k) (CHR 0x0A)"

fun collapseRuns :: "nat \<Rightarrow> string \<Rightarrow> string" where
  \<comment> \<open>\<open>k\<close> newlines of the current run have been read\<close>
  "collapseRuns k [] = emitRun k"
| "collapseRuns k (c # cs) =
     (if c = CHR 0x0A then collapseRuns (k + 1) cs
      else emitRun k @ c # collapseRuns 0 cs)"

definition normalizeSpacing :: "string \<Rightarrow> string" where
  "normalizeSpacing text = collapseRuns 0 text"

definition mdPath :: "lib \<Rightarrow> entry \<Rightarrow> string" where
  \<comment> \<open>\<open>mdAbs\<close>: where the entry's markdown artifact is looked for\<close>
  "mdPath L e =
     (let mdRel =
        (case md e of
           Some m \<Rightarrow>
             if m \<noteq> [] then (if pathIsAbsolute L m then m else pathJoin L [''md'', ''car'', m])
             else pathJoin L [''md'', ''car'', ''Part_'' @ zeroPadPart (part e) @ ''.md'']
         | None \<Rightarrow> pathJoin L [''md'', ''car'', ''Part_'' @ zeroPadPart (part e) @ ''.md''])
      in pathResolve L (projectRoot L) mdRel)"

definition metaBlock :: "entry \<Rightarrow> yaml \<Rightarrow> (string \<times> yaml) list" where
  \<comment> \<open>the object \<open>metaBlock\<close> once its undefined fields are deleted\<close>
  "metaBlock e meta =
     [(''part'', YStr (zeroPadPart (part e))),
      (''name'', YStr (name e)),
      (''source_url'',
         (case getProp meta ''source_url'' of
            None \<Rightarrow> YStr (url e)
          | Some v \<Rightarrow> if truthy v then v else YStr (url e)))]
     @ (case getProp meta ''pages'' of None \<Rightarrow> [] | Some v \<Rightarrow> [(''pages'', v)])
     @ (case getProp meta ''generated_at'' of None \<Rightarrow> [] | Some v \<Rightarrow> [(''generated_at'', v)])"

definition docHeader :: "lib \<Rightarrow> entry \<Rightarrow> yaml \<Rightarrow> string" where
  "docHeader L e meta =
     [CHR 0x0A, CHR 0x0A] @ ''<!-- BEGIN Part_'' @ zeroPadPart (part e) @ '': '' @ name e
       @ '' -->'' @ [CHR 0x0A]
     @ ''```yaml'' @ [CHR 0x0A] @ yamlStringify L (metaBlock e meta) @ ''```'' @ [CHR 0x0A]"

definition docFooter :: "entry \<Rightarrow> string" where
  "docFooter e = [CHR 0x0A] @ ''<!-- END Part_'' @ zeroPadPart (part e) @ '' -->'' @ [CHR 0x0A]"

definition renderPart :: "lib \<Rightarrow> entry \<Rightarrow> string \<Rightarrow> string" where
  \<comment> \<open>what the loop pushes for an entry whose artifact holds \<open>raw\<close>\<close>
  "renderPart L e raw =
     (case extractFrontMatterAndBody (yamlParse L) raw of
        (meta, bodyText) \<Rightarrow> docHeader L e meta @ trimEnd bodyText @ docFooter e)"

record combineState =
  parts :: "string list"
  count :: nat
  warnings :: "string list"

definition missWarning :: "lib \<Rightarrow> entry \<Rightarrow> string" where
  \<comment> \<open>the line given to \<open>console.warn\<close> for an entry without artifact\<close>
  "missWarning L e =
     ''[MISS] skipping Part '' @ zeroPadPart (part e) @ '' (not found: '' @ mdPath L e @ '')''"

definition combineStep ::
  "lib \<Rightarrow> (string \<rightharpoonup> string) \<Rightarrow> combineState \<Rightarrow> entry \<Rightarrow> combineState" where
  \<comment> \<open>one iteration of the loop over the sorted manifest; \<open>files\<close> maps a path to the
      text of the file there\<close>
  "combineStep L files st e =
     (case files (mdPath L e) of
        None \<Rightarrow> st\<lparr>warnings := warnings st @ [missWarning L e]\<rparr>
      | Some raw \<Rightarrow> st\<lparr>parts := parts st @ [renderPart L e raw], count := count st + 1\<rparr>)"

record combineResult =
  combined :: string
  combinedCount :: nat
  combinedWarnings :: "string list"

definition main_combine :: "lib \<Rightarrow> (string \<rightharpoonup> string) \<Rightarrow> entry list \<Rightarrow> combineResult" where
  \<comment> \<open>\<open>main\<close> of combine\_md.js: the text written to \<open>outPath\<close>, the count it logs and
      the warnings\<close>
  "main_combine L files entries =
     (let sorted = sort_key part entries;
          st = foldl (combineStep L files) \<lparr>parts = [], count = 0, warnings = []\<rparr> sorted
      in \<lparr>combined = normalizeSpacing (joinWith [CHR 0x0A] (parts st)) @ [CHR 0x0A],
          combinedCount = count st,
          combinedWarnings = warnings st\<rparr>)"

definition hasArtifact :: "lib \<Rightarrow> (string \<rightharpoonup> string) \<Rightarrow> entry \<Rightarrow> bool" where
  \<comment> \<open>\<open>fs.existsSync(mdAbs)\<close>\<close>
  "hasArtifact L files e = (files (mdPath L e) \<noteq> None)"

definition corpusDocs :: "lib \<Rightarrow> (string \<rightharpoonup> string) \<Rightarrow> entry list \<Rightarrow> entry list" where
  \<comment> \<open>the entries the corpus has a document for, in the order of the corpus\<close>
  "corpusDocs L files entries = filter (hasArtifact L files) (sort_key part entries)"

definition docText :: "lib \<Rightarrow> (string \<rightharpoonup> string) \<Rightarrow> entry \<Rightarrow> string" where
  \<comment> \<open>the element of \<open>parts\<close> that stands for an entry with an artifact\<close>
  "docText L files e = (case files (mdPath L e) of None \<Rightarrow> [] | Some raw \<Rightarrow> renderPart L e raw)"

definition docCore :: "lib \<Rightarrow> (string \<rightharpoonup> string) \<Rightarrow> entry \<Rightarrow> string" where
  \<comment> \<open>an entry's block from its BEGIN marker to its END marker: \<open>docText\<close> without the
      two newlines it starts with and the newline it ends with\<close>
  "docCore L files e = butlast (drop 2 (docText L files e))"

definition exactlyOneTrailingNewline :: "string \<Rightarrow> bool" where
  \<comment> \<open>the text ends with a newline, and not with two\<close>
  "exactlyOneTrailingNewline s =
     (s \<noteq> [] \<and> last s = CHR 0x0A \<and> \<not> (butlast s \<noteq> [] \<and> last (butlast s) = CHR 0x0A))"

fun tripleLF :: "string \<Rightarrow> bool" where
  \<comment> \<open>three newline characters in a row, somewhere\<close>
  "tripleLF (a # b # c # rest) =
     ((a = CHR 0x0A \<and> b = CHR 0x0A \<and> c = CHR 0x0A) \<or> tripleLF (b # c # rest))"
| "tripleLF cs = False"



section \<open>The fetcher (the two download scripts)\<close>

text \<open>
  A response of the server as the scripts read it: the status code, the three headers
  they look at, and the payload. A request ends with a response or with the \<open>error\<close>
  event of the request (connection refused, reset, timed out). The network is a
  parameter: the answer to the \<open>n\<close>-th request of the run, given its URL and its
  \<open>Cookie\<close> header.
\<close>

record headers =
  contentType :: "string option"
  location :: "string option"
  setCookie :: "string list option"

record response =
  statusCode :: nat
  headers :: headers
  body :: string

datatype outcome = Responds response | RequestError string

type_synonym network = "nat \<Rightarrow> string \<Rightarrow> string option \<Rightarrow> outcome"

datatype failure =
  TooManyRedirects
  | NetworkError string
  | UnexpectedResponse nat string nat

datatype event =
  Get string
  | Sleep nat
  | Mkdir string
  | WriteFile string string
  | Rename string string
  | ConsoleLog string

record world =
  requests :: nat
  trace :: "event list"

type_synonym cookieJar = "(string \<times> string) list"

definition emit :: "event \<Rightarrow> world \<Rightarrow> world" where
  "emit ev w = w\<lparr>trace := trace w @ [ev]\<rparr>"

fun mapSet :: "string \<Rightarrow> string \<Rightarrow> cookieJar \<Rightarrow> cookieJar" where
  \<comment> \<open>\<open>Map.prototype.set\<close>: a key keeps its place\<close>
  "mapSet k v [] = [(k, v)]"
| "mapSet k v ((k', v') # m) = (if k' = k then (k, v) # m else (k', v') # mapSet k v m)"

definition storeCookie :: "cookieJar \<Rightarrow> string \<Rightarrow> cookieJar" where
  \<comment> \<open>the body of the loop over the \<open>set-cookie\<close> headers\<close>
  "storeCookie jar cookieStr =
     (case splitOn (CHR '';'') cookieStr of
        [] \<Rightarrow> jar
      | kv # others \<Rightarrow>
          (case splitOn (CHR ''='') kv of
             k # v # unused \<Rightarrow> if k \<noteq> [] \<and> v \<noteq> [] then mapSet (trim k) (trim v) jar else jar
           | short \<Rightarrow> jar))"

definition cookieHeader :: "cookieJar \<Rightarrow> string option" where
  "cookieHeader jar =
     (let cookie = joinWith ''; '' (map (\<lambda>(k, v). k @ ''='' @ v) jar)
      in if cookie \<noteq> [] then Some cookie else None)"

definition redirectTarget :: "response \<Rightarrow> string option" where
  \<comment> \<open>the \<open>location\<close> header when
      \<open>res.statusCode >= 300 && res.statusCode < 400 && res.headers.location\<close> holds\<close>
  "redirectTarget res =
     (case location (headers res) of
        None \<Rightarrow> None
      | Some loc \<Rightarrow>
          if 300 \<le> statusCode res \<and> statusCode res < 400 \<and> loc \<noteq> [] then Some loc else None)"

fun fetchWithRedirects ::
  "network \<Rightarrow> lib \<Rightarrow> string \<Rightarrow> nat \<Rightarrow> cookieJar \<times> world \<Rightarrow> (failure + response) \<times> cookieJar \<times> world"
where
  "fetchWithRedirects net L target maxRedirects (jar, w) =
     (let w1 = emit (Get target) (w\<lparr>requests := requests w + 1\<rparr>) in
      case net (requests w) target (cookieHeader jar) of
        RequestError msg \<Rightarrow> (Inl (NetworkError msg), jar, w1)
      | Responds res \<Rightarrow>
          (let jar1 = (case setCookie (headers res) of
                         None \<Rightarrow> jar
                       | Some cookies \<Rightarrow> foldl storeCookie jar cookies)
           in case redirectTarget res of
                Some loc \<Rightarrow>
                  (case maxRedirects of
                     0 \<Rightarrow> (Inl TooManyRedirects, jar1, w1)
                   | Suc fewer \<Rightarrow>
                       fetchWithRedirects net L (resolveUrl L loc target) fewer (jar1, w1))
              | None \<Rightarrow> (Inr res, jar1, w1)))"

declare fetchWithRedirects.simps [simp del]

definition mimeType :: "response \<Rightarrow> string" where
  \<comment> \<open>\<open>(res.headers['content-type'] || '').split(';')[0].trim()\<close>\<close>
  "mimeType res =
     (case splitOn (CHR '';'') (case contentType (headers res) of None \<Rightarrow> [] | Some t \<Rightarrow> t) of
        [] \<Rightarrow> []
      | first # others \<Rightarrow> trim first)"

definition looksLikePdf :: "string \<Rightarrow> bool" where
  "looksLikePdf buffer = (\<not> length buffer < 5 \<and> take 5 buffer = ''%PDF-'')"

definition rejected :: "response \<Rightarrow> bool" where
  \<comment> \<open>the test both downloaders make on a response:
      \<open>mime !== 'application/pdf' || res.body.length < 10240\<close>\<close>
  "rejected res = (mimeType res \<noteq> ''application/pdf'' \<or> length (body res) < 10240)"

subsection \<open>The batch downloader of the manifest\<close>

record downloadResult =
  ok :: bool
  resPart :: string
  resSize :: nat
  resMime :: string
  resOutPath :: string

definition computeDefaultPdfPath :: "lib \<Rightarrow> string \<Rightarrow> string" where
  \<comment> \<open>called with the padded code, which it pads again: \<open>const p = zeroPadPart(part)\<close>\<close>
  "computeDefaultPdfPath L code =
     (let p = padStart 3 (CHR ''0'') code
      in pathJoin L [''download'', ''car'', ''Part_'' @ p @ ''_Consolidation.pdf''])"

definition pdfOutPath :: "lib \<Rightarrow> entry \<Rightarrow> string" where
  \<comment> \<open>\<open>outPath\<close> of \<open>downloadPdf\<close>\<close>
  "pdfOutPath L e =
     (let relOut = (case pdf e of
                      Some p \<Rightarrow> if trim p \<noteq> [] then p
                                else computeDefaultPdfPath L (zeroPadPart (part e))
                    | None \<Rightarrow> computeDefaultPdfPath L (zeroPadPart (part e)))
      in pathResolve L (projectRoot L) relOut)"

definition tryOnce ::
  "network \<Rightarrow> lib \<Rightarrow> string \<Rightarrow> cookieJar \<times> world \<Rightarrow> (failure + response) \<times> cookieJar \<times> world" where
  "tryOnce net L target s = fetchWithRedirects net L target 8 s"

definition sleep :: "nat \<Rightarrow> cookieJar \<times> world \<Rightarrow> cookieJar \<times> world" where
  "sleep ms s = (fst s, emit (Sleep ms) (snd s))"

definition downloadPdf ::
  "network \<Rightarrow> lib \<Rightarrow> entry \<Rightarrow> cookieJar \<times> world \<Rightarrow> (failure + downloadResult) \<times> cookieJar \<times> world"
where
  "downloadPdf net L e s =
     (let outPath = pdfOutPath L e;
          tmpPath = outPath @ ''.tmp'';
          s0 = (fst s, emit (Mkdir (pathDirname L outPath)) (snd s))
      in case tryOnce net L (url e) s0 of
           (Inl err, s1) \<Rightarrow> (Inl err, s1)
         | (Inr res, s1) \<Rightarrow>
             (case (if rejected res
                    then tryOnce net L (url e) (sleep 400 s1)
                    else (Inr res, s1)) of
                (Inl err, s2) \<Rightarrow> (Inl err, s2)
              | (Inr res2, s2) \<Rightarrow>
                  if rejected res2
                  then (Inr \<lparr>ok = False, resPart = zeroPadPart (part e),
                              resSize = length (body res2), resMime = mimeType res2,
                              resOutPath = outPath\<rparr>, s2)
                  else (Inr \<lparr>ok = True, resPart = zeroPadPart (part e),
                              resSize = length (body res2), resMime = mimeType res2,
                              resOutPath = outPath\<rparr>,
                        fst s2,
                        emit (Rename tmpPath outPath) (emit (WriteFile tmpPath (body res2)) (snd s2)))))"

definition warmSession :: "network \<Rightarrow> lib \<Rightarrow> cookieJar \<times> world \<Rightarrow> cookieJar \<times> world" where
  \<comment> \<open>\<open>try { await fetchWithRedirects(REFERER, {}, 5, cookieJar) } catch {}\<close>\<close>
  "warmSession net L s =
     snd (fetchWithRedirects net L ''https://www.aviation.govt.nz/rules/rule-part/'' 5 s)"

definition statusLine :: "downloadResult \<Rightarrow> string" where
  "statusLine r =
     ''['' @ (if ok r then ''OK'' else ''FAIL'') @ ''] Part '' @ resPart r @ '' -> '' @ resMime r
       @ '' '' @ showNat (resSize r) @ '' bytes '' @ (if ok r then ''saved'' else [])"

fun downloadAll ::
  "network \<Rightarrow> lib \<Rightarrow> entry list \<Rightarrow> cookieJar \<times> world
     \<Rightarrow> (failure + (entry \<times> downloadResult) list) \<times> cookieJar \<times> world"
where
  \<comment> \<open>the loop of \<open>main\<close> over the manifest; a rejected \<open>await\<close> leaves the loop\<close>
  "downloadAll net L [] s = (Inr [], s)"
| "downloadAll net L (e # es) s =
     (case downloadPdf net L e s of
        (Inl err, s1) \<Rightarrow> (Inl err, s1)
      | (Inr r, s1) \<Rightarrow>
          (case downloadAll net L es (fst s1, emit (ConsoleLog (statusLine r)) (snd s1)) of
             (Inl err, s2) \<Rightarrow> (Inl err, s2)
           | (Inr rs, s2) \<Rightarrow> (Inr ((e, r) # rs), s2)))"

record run =
  exitCode :: nat
  report :: "(entry \<times> downloadResult) list option"
  final :: world

definition main_download :: "network \<Rightarrow> lib \<Rightarrow> entry list \<Rightarrow> run" where
  \<comment> \<open>\<open>main().catch(err => { console.error(err); process.exit(1) })\<close> of the batch
      downloader; \<open>report\<close> is the list written to \<open>report.json\<close>, if it is written.
      The JSON text of the report and the last line printed (the output directory) are
      left out.\<close>
  "main_download net L list =
     (case downloadAll net L list (warmSession net L ([], \<lparr>requests = 0, trace = []\<rparr>)) of
        (Inl err, s) \<Rightarrow> \<lparr>exitCode = 1, report = None, final = snd s\<rparr>
      | (Inr results, s) \<Rightarrow>
          \<lparr>exitCode = 0, report = Some results,
           final = emit (ConsoleLog (''Summary: '' @ showNat (length (filter (\<lambda>(e, r). ok r) results))
                     @ '' ok, ''
                     @ showNat (length results - length (filter (\<lambda>(e, r). ok r) results))
                     @ '' fail'')) (snd s)\<rparr>)"

text \<open>The pieces of \<open>downloadPdf\<close> and of the loop, to state what they do.\<close>

definition afterMkdir :: "lib \<Rightarrow> entry \<Rightarrow> cookieJar \<times> world \<Rightarrow> cookieJar \<times> world" where
  \<comment> \<open>the state in which the first attempt starts\<close>
  "afterMkdir L e s = (fst s, emit (Mkdir (pathDirname L (pdfOutPath L e))) (snd s))"

definition saved :: "lib \<Rightarrow> entry \<Rightarrow> response \<Rightarrow> cookieJar \<times> world \<Rightarrow> cookieJar \<times> world" where
  \<comment> \<open>the payload written to the temporary path and renamed into place\<close>
  "saved L e res s =
     (fst s, emit (Rename (pdfOutPath L e @ ''.tmp'') (pdfOutPath L e))
               (emit (WriteFile (pdfOutPath L e @ ''.tmp'') (body res)) (snd s)))"

definition resultOf :: "lib \<Rightarrow> entry \<Rightarrow> bool \<Rightarrow> response \<Rightarrow> downloadResult" where
  \<comment> \<open>the object \<open>downloadPdf\<close> returns for the response it judged\<close>
  "resultOf L e flag res =
     \<lparr>ok = flag, resPart = zeroPadPart (part e), resSize = length (body res),
      resMime = mimeType res, resOutPath = pdfOutPath L e\<rparr>"

definition logged :: "downloadResult \<Rightarrow> cookieJar \<times> world \<Rightarrow> cookieJar \<times> world" where
  \<comment> \<open>the status line of an entry printed\<close>
  "logged r s = (fst s, emit (ConsoleLog (statusLine r)) (snd s))"

subsection \<open>The downloader of the Act\<close>

record savedPdf =
  savedPath :: string
  savedBytes :: nat
  savedMime :: string

definition downloadPdf_caa ::
  "network \<Rightarrow> lib \<Rightarrow> string \<Rightarrow> string \<Rightarrow> world \<Rightarrow> (failure + savedPdf) \<times> world" where
  \<comment> \<open>\<open>downloadPdf(url, outPath)\<close> of the script that fetches the Act\<close>
  "downloadPdf_caa net L target outPath w =
     (let tmpPath = outPath @ ''.tmp'';
          s0 = ([], emit (Mkdir (pathDirname L outPath)) w)
      in case fetchWithRedirects net L target 8 s0 of
           (Inl err, s1) \<Rightarrow> (Inl err, snd s1)
         | (Inr res, s1) \<Rightarrow>
             (case (if rejected res \<and> \<not> looksLikePdf (body res)
                    then fetchWithRedirects net L target 8 (sleep 400 s1)
                    else (Inr res, s1)) of
                (Inl err, s2) \<Rightarrow> (Inl err, snd s2)
              | (Inr res2, s2) \<Rightarrow>
                  if \<not> looksLikePdf (body res2)
                  then (Inl (UnexpectedResponse (statusCode res2) (mimeType res2) (length (body res2))),
                        snd s2)
                  else (Inr \<lparr>savedPath = outPath, savedBytes = length (body res2),
                              savedMime = (if mimeType res2 \<noteq> [] then mimeType res2
                                           else ''application/pdf'')\<rparr>,
                        emit (Rename tmpPath outPath)
                          (emit (WriteFile tmpPath (body res2)) (snd s2)))))"

text \<open>The pieces of the Act's \<open>downloadPdf\<close>, to state what it does.\<close>

definition caaStart :: "lib \<Rightarrow> string \<Rightarrow> world \<Rightarrow> cookieJar \<times> world" where
  \<comment> \<open>a new cookie jar, the directory made: the state in which the first attempt starts\<close>
  "caaStart L outPath w = ([], emit (Mkdir (pathDirname L outPath)) w)"

definition caaSaved :: "string \<Rightarrow> response \<Rightarrow> world \<Rightarrow> (failure + savedPdf) \<times> world" where
  \<comment> \<open>the payload written and renamed into place, and the object returned\<close>
  "caaSaved outPath res w =
     (Inr \<lparr>savedPath = outPath, savedBytes = length (body res),
            savedMime = (if mimeType res \<noteq> [] then mimeType res else ''application/pdf'')\<rparr>,
      emit (Rename (outPath @ ''.tmp'') outPath) (emit (WriteFile (outPath @ ''.tmp'') (body res)) w))"

definition caaRefused :: "response \<Rightarrow> world \<Rightarrow> (failure + savedPdf) \<times> world" where
  \<comment> \<open>\<open>throw new Error(`Unexpected response (status ..., type ..., size ...)`)\<close>\<close>
  "caaRefused res w =
     (Inl (UnexpectedResponse (statusCode res) (mimeType res) (length (body res))), w)"

section \<open>A sample manifest and its artifacts\<close>

text \<open>
  The library functions, for the examples: a YAML parser that reads the one front matter
  of the sample and throws on every other text, a serializer of one \<open>key: value\<close> line
  per field, and POSIX paths below \<open>/repo\<close>.
\<close>

definition sampleLib :: lib where
  "sampleLib =
     \<lparr>yamlParse = (\<lambda>t. if t = ''source_url: https://example.org/012.pdf\<newline>pages: 5''
                       then Some (YMap [(''source_url'', YStr ''https://example.org/012.pdf''),
                                        (''pages'', YNum 5)])
                       else None),
      yamlStringify = (\<lambda>kvs. concat (map (\<lambda>(k, v). k @ '': ''
                          @ (case v of YStr t \<Rightarrow> t | YNum n \<Rightarrow> showNat (nat n) | other \<Rightarrow> [])
                          @ [CHR 0x0A]) kvs)),
      pathIsAbsolute = (\<lambda>p. take 1 p = ''/''),
      pathJoin = joinWith ''/'',
      pathResolve = (\<lambda>root rel. if take 1 rel = ''/'' then rel else root @ ''/'' @ rel),
      pathDirname = (\<lambda>p. rev (drop 1 (dropWhile (\<lambda>c. c \<noteq> CHR ''/'') (rev p)))),
      resolveUrl = (\<lambda>loc base. loc),
      projectRoot = ''/repo''\<rparr>"

definition entry012 :: entry where
  "entry012 = \<lparr>part = 12, name = ''Twelve'', url = ''https://example.org/m012.pdf'',
                pdf = None, md = None\<rparr>"

definition entry087 :: entry where
  "entry087 = \<lparr>part = 87, name = ''Eighty-seven'', url = ''https://example.org/m087.pdf'',
                pdf = None, md = None\<rparr>"

definition entry100 :: entry where
  "entry100 = \<lparr>part = 100, name = ''Hundred'', url = ''https://example.org/m100.pdf'',
                pdf = None, md = None\<rparr>"

definition raw012 :: string where
  "raw012 = ''---\<newline>source_url: https://example.org/012.pdf\<newline>pages: 5\<newline>---\<newline># Twelve\<newline>\<newline>Rule 12\<newline>''"

definition sampleFiles :: "string \<rightharpoonup> string" where
  "sampleFiles =
     [''/repo/md/car/Part_012.md'' \<mapsto> raw012,
      ''/repo/md/car/Part_087.md'' \<mapsto> ''# Eighty-seven\<newline>\<newline>\<newline>\<newline>Rule 87'',
      ''/repo/md/car/Part_100.md'' \<mapsto> ''---\<newline>title: [\<newline>---\<newline>Rule 100\<newline>'']"

definition fewerFiles :: "string \<rightharpoonup> string" where
  \<comment> \<open>the artifact of Part 087 is missing\<close>
  "fewerFiles =
     [''/repo/md/car/Part_012.md'' \<mapsto> raw012,
      ''/repo/md/car/Part_100.md'' \<mapsto> ''---\<newline>title: [\<newline>---\<newline>Rule 100\<newline>'']"

text \<open>
  Servers, for the examples. \<open>htmlNet\<close> answers every request with a small HTML page;
  \<open>retryNet\<close> does so for the first request and sends a PDF from the second on;
  \<open>junkNet\<close> labels a page of 10240 bytes that is no PDF as \<open>application/pdf\<close>;
  \<open>brokenNet\<close> resets the connection of the second request of the run.
\<close>

definition htmlPage :: response where
  "htmlPage = \<lparr>statusCode = 200,
       headers = \<lparr>contentType = Some ''text/html; charset=utf-8'', location = None, setCookie = None\<rparr>,
       body = ''<html>denied</html>''\<rparr>"

definition pdfFile :: response where
  "pdfFile = \<lparr>statusCode = 200,
       headers = \<lparr>contentType = Some ''application/pdf'', location = None, setCookie = None\<rparr>,
       body = ''%PDF-'' @ replicate 10240 (CHR ''x'')\<rparr>"

definition junkFile :: response where
  "junkFile = \<lparr>statusCode = 200,
       headers = \<lparr>contentType = Some ''application/pdf'', location = None, setCookie = None\<rparr>,
       body = ''<html>'' @ replicate 10234 (CHR '' '')\<rparr>"

definition tinyPdf :: response where
  \<comment> \<open>eight bytes that start like a PDF, sent as HTML\<close>
  "tinyPdf = \<lparr>statusCode = 200,
       headers = \<lparr>contentType = Some ''text/html'', location = None, setCookie = None\<rparr>,
       body = ''%PDF-1.4''\<rparr>"

definition tinyNet :: network where
  "tinyNet n target cookie = (if n = 0 then Responds htmlPage else Responds tinyPdf)"

definition loopNet :: network where
  \<comment> \<open>every answer is a redirect that sets a cookie\<close>
  "loopNet n target cookie =
     Responds \<lparr>statusCode = 302,
       headers = \<lparr>contentType = None, location = Some ''/again'',
                  setCookie = Some [''sid=abc; Path=/'']\<rparr>,
       body = []\<rparr>"

definition htmlNet :: network where
  "htmlNet n target cookie = Responds htmlPage"

definition retryNet :: network where
  "retryNet n target cookie = (if n = 0 then Responds htmlPage else Responds pdfFile)"

definition junkNet :: network where
  "junkNet n target cookie = Responds junkFile"

definition brokenNet :: network where
  "brokenNet n target cookie = (if n = 1 then RequestError ''ECONNRESET'' else Responds pdfFile)"

definition start :: "cookieJar \<times> world" where
  \<comment> \<open>an empty cookie jar, before the first request of the run\<close>
  "start = ([], \<lparr>requests = 0, trace = []\<rparr>)"

section \<open>Facts about the string functions\<close>

lemma trimEnd_Nil [simp]: "trimEnd [] = []"
  by (simp add: trimEnd_def)

lemma trimEnd_noTrailing: "noTrailingSpace (trimEnd s)"
proof -
  have "dropWhile isSpace (rev s) = [] \<or> \<not> isSpace (hd (dropWhile isSpace (rev s)))"
    using hd_dropWhile [of isSpace "rev s"] by blast
  then show ?thesis
    by (auto simp: noTrailingSpace_def trimEnd_def last_rev)
qed

lemma trimEnd_id: "noTrailingSpace l \<Longrightarrow> trimEnd l = l"
proof (cases "l = []")
  case True
  then show ?thesis by simp
next
  case False
  assume "noTrailingSpace l"
  with False have "\<not> isSpace (hd (rev l))"
    by (simp add: noTrailingSpace_def hd_rev)
  moreover from False have "rev l = hd (rev l) # tl (rev l)" by simp
  ultimately have "dropWhile isSpace (rev l) = rev l"
    by (metis dropWhile.simps(2))
  then show ?thesis by (simp add: trimEnd_def)
qed

lemma trimEnd_idem [simp]: "trimEnd (trimEnd s) = trimEnd s"
  by (rule trimEnd_id [OF trimEnd_noTrailing])

lemma trimEnd_eq_Nil: "trimEnd l = [] \<longleftrightarrow> isBlank l"
proof -
  have "dropWhile isSpace (rev l) = [] \<longleftrightarrow> (\<forall>c \<in> set (rev l). isSpace c)"
    by (rule dropWhile_eq_Nil_conv)
  then show ?thesis by (simp add: trimEnd_def isBlank_def list_all_iff)
qed

lemma set_trimEnd: "set (trimEnd s) \<subseteq> set s"
  using set_dropWhileD [of _ isSpace "rev s"] by (auto simp: trimEnd_def)

lemma splitLines_not_Nil [simp]: "splitLines t \<noteq> []"
  by (induction t) (auto split: list.splits)

lemma splitLines_no_LF: "l \<in> set (splitLines t) \<Longrightarrow> CHR 0x0A \<notin> set l"
proof (induction t arbitrary: l)
  case Nil
  then show ?case by simp
next
  case (Cons c cs)
  then show ?case
    by (cases "splitLines cs") (auto split: if_splits)
qed

lemma splitLines_line:
  "CHR 0x0A \<notin> set l \<Longrightarrow> l = [] \<or> last l \<noteq> CHR 0x0D \<Longrightarrow>
   splitLines (l @ CHR 0x0A # t) = l # splitLines t"
proof (induction l)
  case Nil
  then show ?case by simp
next
  case (Cons c l)
  show ?case
  proof (cases "l = []")
    case True
    with Cons.prems show ?thesis by simp
  next
    case False
    with Cons have ih: "splitLines (l @ CHR 0x0A # t) = l # splitLines t" by simp
    from False obtain d l' where l: "l = d # l'" by (cases l) auto
    from Cons.prems have "c \<noteq> CHR 0x0A" by auto
    moreover from Cons.prems l have "d \<noteq> CHR 0x0A" by auto
    ultimately show ?thesis using ih l by simp
  qed
qed

lemma splitLines_last_line: "CHR 0x0A \<notin> set l \<Longrightarrow> splitLines l = [l]"
proof (induction l)
  case Nil
  then show ?case by simp
next
  case (Cons c l)
  then show ?case by (cases l) auto
qed

lemma splitLines_joinWith:
  "ls \<noteq> [] \<Longrightarrow> \<forall>l \<in> set ls. CHR 0x0A \<notin> set l \<and> (l = [] \<or> last l \<noteq> CHR 0x0D) \<Longrightarrow>
   splitLines (joinWith [CHR 0x0A] ls) = ls"
proof (induction ls)
  case Nil
  then show ?case by simp
next
  case (Cons x xs)
  show ?case
  proof (cases xs)
    case Nil
    with Cons.prems show ?thesis by (simp add: splitLines_last_line)
  next
    case (Cons y ys)
    with Cons.IH Cons.prems have "splitLines (joinWith [CHR 0x0A] xs) = xs" by simp
    with Cons Cons.prems show ?thesis by (simp add: splitLines_line)
  qed
qed

section \<open>Facts about the normalizer loop\<close>

lemma isBlank_Nil [simp]: "isBlank []"
  by (simp add: isBlank_def)

lemma trimEnd_not_blank: "trimEnd l \<noteq> [] \<Longrightarrow> \<not> isBlank (trimEnd l)"
  using trimEnd_eq_Nil [of "trimEnd l"] by simp

lemma foldl_normalizeStep:
  "fst (foldl normalizeStep (acc, k) ls) = acc @ pushed k ls"
  by (induction ls arbitrary: acc k) (simp_all add: normalizeStep_def Let_def)

lemma compactLines_pushed: "compactLines ls = pushed 0 ls"
  using foldl_normalizeStep [of "[]" 0 ls] by (simp add: compactLines_def)

lemma pushed_trimmed: "l \<in> set (pushed k ls) \<Longrightarrow> noTrailingSpace l"
proof (induction ls arbitrary: k)
  case Nil
  then show ?case by simp
next
  case (Cons x xs)
  then show ?case
    using trimEnd_noTrailing [of x]
    by (auto simp: noTrailingSpace_def split: if_splits)
qed

lemma pushed_from: "l \<in> set (pushed k ls) \<Longrightarrow> l = [] \<or> (\<exists>m \<in> set ls. l = trimEnd m)"
  by (induction ls arbitrary: k) (auto split: if_splits)

lemma pushed_not_Nil: "ls \<noteq> [] \<Longrightarrow> pushed 0 ls \<noteq> []"
  by (cases ls) auto

lemma hasBlankRun3_Cons:
  "hasBlankRun3 (x # xs) \<longleftrightarrow> (isBlank x \<and> 2 \<le> leadingBlanks xs) \<or> hasBlankRun3 xs"
proof (cases xs)
  case Nil
  then show ?thesis by (simp add: leadingBlanks_def)
next
  case (Cons y ys)
  then show ?thesis by (cases ys) (auto simp: leadingBlanks_def)
qed

lemma pushed_runs:
  "\<not> hasBlankRun3 (pushed k ls) \<and> leadingBlanks (pushed k ls) + min k 2 \<le> 2"
proof (induction ls arbitrary: k)
  case Nil
  then show ?case by (simp add: leadingBlanks_def)
next
  case (Cons x xs)
  show ?case
  proof (cases "trimEnd x = []")
    case True
    show ?thesis
    proof (cases "k + 1 \<le> 2")
      case le: True
      from Cons [of "k + 1"] le have "leadingBlanks (pushed (k + 1) xs) \<le> 1 - k"
        and "\<not> hasBlankRun3 (pushed (k + 1) xs)" by auto
      with True le show ?thesis
        by (auto simp: hasBlankRun3_Cons) (simp add: leadingBlanks_def)
    next
      case False
      with True Cons [of "k + 1"] show ?thesis by auto
    qed
  next
    case False
    then have "\<not> isBlank (trimEnd x)" by (rule trimEnd_not_blank)
    with False Cons [of 0] show ?thesis
      by (simp add: hasBlankRun3_Cons) (simp add: leadingBlanks_def)
  qed
qed

lemma noRun_leading: "\<not> hasBlankRun3 xs \<Longrightarrow> leadingBlanks xs \<le> 2"
proof (cases xs)
  case Nil
  then show ?thesis by (simp add: leadingBlanks_def)
next
  case (Cons a as)
  assume nr: "\<not> hasBlankRun3 xs"
  show ?thesis
  proof (cases as)
    case Nil
    with Cons show ?thesis by (simp add: leadingBlanks_def)
  next
    case c2: (Cons b bs)
    with Cons nr show ?thesis by (cases bs) (auto simp: leadingBlanks_def)
  qed
qed

lemma pushed_fix:
  "\<forall>l \<in> set ls. noTrailingSpace l \<Longrightarrow> \<not> hasBlankRun3 ls \<Longrightarrow>
   leadingBlanks ls + min k 2 \<le> 2 \<Longrightarrow> pushed k ls = ls"
proof (induction ls arbitrary: k)
  case Nil
  then show ?case by simp
next
  case (Cons x xs)
  from Cons.prems have tx: "trimEnd x = x" by (simp add: trimEnd_id)
  from Cons.prems have nr: "\<not> hasBlankRun3 xs" and all: "\<forall>l \<in> set xs. noTrailingSpace l"
    by (auto simp: hasBlankRun3_Cons)
  show ?case
  proof (cases "x = []")
    case True
    with Cons.prems have lb: "Suc (leadingBlanks xs) + min k 2 \<le> 2"
      by (simp add: leadingBlanks_def)
    then have "leadingBlanks xs + min (k + 1) 2 \<le> 2" by auto
    with Cons.IH [OF all nr] have "pushed (k + 1) xs = xs" by blast
    with True lb show ?thesis by auto
  next
    case False
    from nr have "leadingBlanks xs + min 0 2 \<le> 2"
      using noRun_leading [of xs] by simp
    with Cons.IH [OF all nr] have "pushed 0 xs = xs" by blast
    with False tx show ?thesis by simp
  qed
qed

lemma lines_normalize:
  "splitLines (normalizeTextToMarkdown t) = compactLines (splitLines t)"
proof -
  let ?C = "pushed 0 (splitLines t)"
  have ne: "?C \<noteq> []" by (rule pushed_not_Nil) simp
  have "\<forall>l \<in> set ?C. CHR 0x0A \<notin> set l \<and> (l = [] \<or> last l \<noteq> CHR 0x0D)"
  proof
    fix l assume l: "l \<in> set ?C"
    from pushed_from [OF l] have "CHR 0x0A \<notin> set l"
      using splitLines_no_LF set_trimEnd by fastforce
    moreover from pushed_trimmed [OF l] have "l = [] \<or> last l \<noteq> CHR 0x0D"
      by (auto simp: noTrailingSpace_def isSpace_def)
    ultimately show "CHR 0x0A \<notin> set l \<and> (l = [] \<or> last l \<noteq> CHR 0x0D)" ..
  qed
  with ne show ?thesis
    by (simp add: normalizeTextToMarkdown_def compactLines_pushed splitLines_joinWith)
qed

lemma compactLines_idem: "compactLines (compactLines ls) = compactLines ls"
proof -
  have "pushed 0 (pushed 0 ls) = pushed 0 ls"
    using pushed_runs [of 0 ls] pushed_trimmed [of _ 0 ls] by (intro pushed_fix) auto
  then show ?thesis by (simp add: compactLines_pushed)
qed

lemma normalize_twice:
  "normalizeTextToMarkdown (normalizeTextToMarkdown t) = normalizeTextToMarkdown t"
proof -
  have "compactLines (splitLines (normalizeTextToMarkdown t)) = compactLines (splitLines t)"
    by (simp add: lines_normalize compactLines_idem)
  then show ?thesis
    unfolding normalizeTextToMarkdown_def [of "normalizeTextToMarkdown t"]
    by (simp add: normalizeTextToMarkdown_def)
qed

lemma pushed_blanks:
  "list_all isBlank bs \<Longrightarrow>
   pushed k (bs @ post) = replicate (min (k + length bs) 2 - min k 2) [] @ pushed (k + length bs) post"
proof (induction bs arbitrary: k)
  case Nil
  then show ?case by simp
next
  case (Cons b bs)
  then have "trimEnd b = []" by (simp add: trimEnd_eq_Nil)
  moreover from Cons have "pushed (k + 1) (bs @ post) =
      replicate (min (k + 1 + length bs) 2 - min (k + 1) 2) [] @ pushed (k + 1 + length bs) post"
    by simp
  ultimately show ?case
    by (auto simp: min_def replicate_Suc [symmetric] simp del: replicate_Suc)
qed

lemma pushed_nonblank_head:
  "post = [] \<or> \<not> isBlank (hd post) \<Longrightarrow> pushed k post = pushed 0 post"
  by (cases post) (auto simp: trimEnd_eq_Nil)

lemma pushed_append:
  "pre = [] \<and> k = 0 \<or> pre \<noteq> [] \<and> \<not> isBlank (last pre) \<Longrightarrow>
   pushed k (pre @ rest) = pushed k pre @ pushed 0 rest"
proof (induction pre arbitrary: k)
  case Nil
  then show ?case by simp
next
  case (Cons x xs)
  show ?case
  proof (cases "xs = []")
    case True
    with Cons.prems show ?thesis by (simp add: trimEnd_eq_Nil)
  next
    case False
    with Cons.prems have "\<And>j. pushed j (xs @ rest) = pushed j xs @ pushed 0 rest"
      by (intro Cons.IH) simp
    then show ?thesis by simp
  qed
qed

lemma norm_lines_props:
  "\<not> hasBlankRun3 (splitLines (normalizeTextToMarkdown t))"
  "list_all noTrailingSpace (splitLines (normalizeTextToMarkdown t))"
  using pushed_runs [of 0 "splitLines t"] pushed_trimmed [of _ 0 "splitLines t"]
  by (auto simp: lines_normalize compactLines_pushed list_all_iff)

lemma norm_run:
  assumes "splitLines t = pre @ bs @ post" "list_all isBlank bs"
    "pre = [] \<or> \<not> isBlank (last pre)" "post = [] \<or> \<not> isBlank (hd post)"
  shows "splitLines (normalizeTextToMarkdown t)
         = compactLines pre @ replicate (min (length bs) 2) [] @ compactLines post"
proof -
  have "pushed 0 (pre @ bs @ post) = pushed 0 pre @ pushed 0 (bs @ post)"
    using assms(3) by (intro pushed_append) auto
  also have "pushed 0 (bs @ post) = replicate (min (length bs) 2) [] @ pushed (length bs) post"
    using pushed_blanks [OF assms(2), of 0 post] by simp
  also have "pushed (length bs) post = pushed 0 post"
    using assms(4) by (rule pushed_nonblank_head)
  finally show ?thesis using assms(1) by (simp add: lines_normalize compactLines_pushed)
qed

lemma norm_unchanged:
  assumes "ls \<noteq> []" "\<forall>l \<in> set ls. CHR 0x0A \<notin> set l \<and> noTrailingSpace l" "\<not> hasBlankRun3 ls"
  shows "normalizeTextToMarkdown (joinWith [CHR 0x0A] ls) = joinWith [CHR 0x0A] ls"
proof -
  from assms(2) have "\<forall>l \<in> set ls. CHR 0x0A \<notin> set l \<and> (l = [] \<or> last l \<noteq> CHR 0x0D)"
    by (auto simp: noTrailingSpace_def isSpace_def)
  with assms(1) have "splitLines (joinWith [CHR 0x0A] ls) = ls" by (rule splitLines_joinWith)
  moreover have "pushed 0 ls = ls"
    using assms(2,3) noRun_leading [of ls] by (intro pushed_fix) auto
  ultimately show ?thesis by (simp add: normalizeTextToMarkdown_def compactLines_pushed)
qed

section \<open>The normalizer: idempotence and blank lines\<close>

text \<open>
  C4. The markdown normalizer is idempotent: for every text, normalizing the normalized
  text returns it unchanged.
\<close>

theorem C4_normalize_idempotent:
  "normalizeTextToMarkdown (normalizeTextToMarkdown t) = normalizeTextToMarkdown t"
  by (rule normalize_twice)

theorem C4_normalize_idempotent_witness:
  "normalizeTextToMarkdown ''a \<newline>\<newline> \<newline>\<newline>\<newline>\<newline>b'' = ''a\<newline>\<newline>\<newline>b''
   \<and> normalizeTextToMarkdown (normalizeTextToMarkdown ''a \<newline>\<newline> \<newline>\<newline>\<newline>\<newline>b'')
       = normalizeTextToMarkdown ''a \<newline>\<newline> \<newline>\<newline>\<newline>\<newline>b''"
  using C4_normalize_idempotent [of "''a \<newline>\<newline> \<newline>\<newline>\<newline>\<newline>b''"]
  by (simp add: normalizeTextToMarkdown_def compactLines_def normalizeStep_def trimEnd_def
      isSpace_def)

text \<open>
  C5. For every text, the lines of the normalized text hold no three blank lines in a row
  and none of them ends in white space. Where the lines of the input hold a maximal run
  \<open>bs\<close> of blank lines (the line before it, if any, and the line after it, if any, are
  not blank), the output holds \<open>min (length bs) 2\<close> empty lines at that place, between
  the normalized lines before and the normalized lines after: two for a run of five, and a
  run of one or two keeps its length. A text whose lines carry no trailing white space and
  hold no three blank lines in a row is returned unchanged.
\<close>

theorem C5_normalize_blank_lines:
  "\<not> hasBlankRun3 (splitLines (normalizeTextToMarkdown t))
   \<and> list_all noTrailingSpace (splitLines (normalizeTextToMarkdown t))
   \<and> (splitLines t = pre @ bs @ post \<and> list_all isBlank bs
        \<and> (pre = [] \<or> \<not> isBlank (last pre)) \<and> (post = [] \<or> \<not> isBlank (hd post))
      \<longrightarrow> splitLines (normalizeTextToMarkdown t)
          = compactLines pre @ replicate (min (length bs) 2) [] @ compactLines post)
   \<and> (ls \<noteq> [] \<and> (\<forall>l \<in> set ls. CHR 0x0A \<notin> set l \<and> noTrailingSpace l) \<and> \<not> hasBlankRun3 ls
      \<longrightarrow> normalizeTextToMarkdown (joinWith [CHR 0x0A] ls) = joinWith [CHR 0x0A] ls)"
  using norm_lines_props [of t] norm_run [of t pre bs post] norm_unchanged [of ls]
  by blast

theorem C5_normalize_blank_lines_witness:
  "splitLines ''a \<newline>\<newline> \<newline>\<newline>\<newline>\<newline>b'' = [''a ''] @ ['''', '' '', '''', '''', ''''] @ [''b'']
   \<and> list_all isBlank ['''', '' '', '''', '''', '''']
   \<and> \<not> isBlank (last [''a '']) \<and> \<not> isBlank (hd [''b''])
   \<and> splitLines (normalizeTextToMarkdown ''a \<newline>\<newline> \<newline>\<newline>\<newline>\<newline>b'') = [''a'', '''', '''', ''b'']
   \<and> \<not> hasBlankRun3 (splitLines (normalizeTextToMarkdown ''a \<newline>\<newline> \<newline>\<newline>\<newline>\<newline>b''))
   \<and> list_all noTrailingSpace (splitLines (normalizeTextToMarkdown ''a \<newline>\<newline> \<newline>\<newline>\<newline>\<newline>b''))
   \<and> \<not> hasBlankRun3 [''a'', '''', '''', ''b'', '''', ''c'']
   \<and> normalizeTextToMarkdown (joinWith [CHR 0x0A] [''a'', '''', '''', ''b'', '''', ''c''])
       = ''a\<newline>\<newline>\<newline>b\<newline>\<newline>c''"
  using C5_normalize_blank_lines [of "''a \<newline>\<newline> \<newline>\<newline>\<newline>\<newline>b''" "[''a '']"
      "['''', '' '', '''', '''', '''']" "[''b'']" "[''a'', '''', '''', ''b'', '''', ''c'']"]
  by (simp add: normalizeTextToMarkdown_def compactLines_def normalizeStep_def trimEnd_def
      isSpace_def isBlank_def noTrailingSpace_def)

section \<open>Facts about the front-matter scan\<close>

lemma findClose_none:
  "\<forall>j. i \<le> j \<and> j < length lines \<longrightarrow> trim (lines ! j) \<noteq> ''---'' \<Longrightarrow> i \<le> length lines \<Longrightarrow>
   findClose lines i = length lines"
proof (induction lines i rule: findClose.induct)
  case (1 lines i)
  show ?case
  proof (cases "i < length lines")
    case True
    with "1.prems" have nd: "trim (lines ! i) \<noteq> ''---''" by simp
    from True "1.prems" have "findClose lines (i + 1) = length lines"
      by (intro "1.IH") (auto simp: nd)
    with True nd show ?thesis by (subst findClose.simps) simp
  next
    case False
    with "1.prems" show ?thesis by (subst findClose.simps) simp
  qed
qed

lemma findClose_first:
  "i \<le> c \<Longrightarrow> c < length lines \<Longrightarrow> trim (lines ! c) = ''---'' \<Longrightarrow>
   \<forall>j. i \<le> j \<and> j < c \<longrightarrow> trim (lines ! j) \<noteq> ''---'' \<Longrightarrow> findClose lines i = c"
proof (induction lines i rule: findClose.induct)
  case (1 lines i)
  show ?case
  proof (cases "i = c")
    case True
    with "1.prems" show ?thesis by (subst findClose.simps) simp
  next
    case False
    with "1.prems" have lt: "i < c" and nd: "trim (lines ! i) \<noteq> ''---''" by auto
    with "1.prems" have "findClose lines (i + 1) = c"
      by (intro "1.IH") auto
    with lt nd "1.prems" show ?thesis by (subst findClose.simps) simp
  qed
qed

lemma extract_no_open:
  "trim (hd (splitLines mdText)) \<noteq> ''---'' \<Longrightarrow>
   extractFrontMatterAndBody parse mdText = (YMap [], mdText)"
  by (cases "splitLines mdText") (simp_all add: extractFrontMatterAndBody_def)

lemma extract_no_close:
  assumes "\<forall>j. 1 \<le> j \<and> j < length (splitLines mdText) \<longrightarrow> trim (splitLines mdText ! j) \<noteq> ''---''"
  shows "extractFrontMatterAndBody parse mdText = (YMap [], mdText)"
proof -
  have "1 \<le> length (splitLines mdText)" by (cases "splitLines mdText") simp_all
  with assms have "findClose (splitLines mdText) 1 = length (splitLines mdText)"
    by (intro findClose_none) auto
  then show ?thesis
    by (simp add: extractFrontMatterAndBody_def Let_def split: list.splits)
qed

lemma extract_closed:
  assumes "trim (hd (splitLines mdText)) = ''---''"
    and "1 \<le> c" "c < length (splitLines mdText)" "trim (splitLines mdText ! c) = ''---''"
    and "\<forall>j. 1 \<le> j \<and> j < c \<longrightarrow> trim (splitLines mdText ! j) \<noteq> ''---''"
  shows "extractFrontMatterAndBody parse mdText =
    ((case parse (joinWith [CHR 0x0A] (take (c - 1) (drop 1 (splitLines mdText)))) of
        None \<Rightarrow> YMap [] | Some v \<Rightarrow> if truthy v then v else YMap []),
     joinWith [CHR 0x0A] (drop (c + 1) (splitLines mdText)))"
proof -
  from assms have "findClose (splitLines mdText) 1 = c"
    by (intro findClose_first) auto
  with assms(1,3) show ?thesis
    by (cases "splitLines mdText") (simp_all add: extractFrontMatterAndBody_def Let_def)
qed

section \<open>Front matter is extracted without loss\<close>

text \<open>
  C10. \<open>extractFrontMatterAndBody\<close> returns for every text, and loses no text outside a
  closed front-matter block. A line is the delimiter when it is \<open>---\<close> once the white
  space around it is trimmed. If the first line is not the delimiter, or no later line
  is (the block is never closed), the result is the empty metadata and the whole text
  as it was. If line \<open>c\<close> is the first delimiter after the opening one and the YAML
  parser throws on the lines between them, the result is the empty metadata and the
  lines after line \<open>c\<close>, joined by newlines; nothing is raised.
\<close>

theorem C10_extract_front_matter:
  "(trim (hd (splitLines mdText)) \<noteq> ''---''
      \<or> (\<forall>j. 1 \<le> j \<and> j < length (splitLines mdText) \<longrightarrow> trim (splitLines mdText ! j) \<noteq> ''---'')
     \<longrightarrow> extractFrontMatterAndBody parse mdText = (YMap [], mdText))
   \<and> (trim (hd (splitLines mdText)) = ''---'' \<and> 1 \<le> c \<and> c < length (splitLines mdText)
        \<and> trim (splitLines mdText ! c) = ''---''
        \<and> (\<forall>j. 1 \<le> j \<and> j < c \<longrightarrow> trim (splitLines mdText ! j) \<noteq> ''---'')
        \<and> parse (joinWith [CHR 0x0A] (take (c - 1) (drop 1 (splitLines mdText)))) = None
     \<longrightarrow> extractFrontMatterAndBody parse mdText
           = (YMap [], joinWith [CHR 0x0A] (drop (c + 1) (splitLines mdText))))"
proof (intro conjI impI)
  assume "trim (hd (splitLines mdText)) \<noteq> ''---''
      \<or> (\<forall>j. 1 \<le> j \<and> j < length (splitLines mdText) \<longrightarrow> trim (splitLines mdText ! j) \<noteq> ''---'')"
  then show "extractFrontMatterAndBody parse mdText = (YMap [], mdText)"
    using extract_no_open [of mdText parse] extract_no_close [of mdText parse] by blast
next
  assume h: "trim (hd (splitLines mdText)) = ''---'' \<and> 1 \<le> c \<and> c < length (splitLines mdText)
        \<and> trim (splitLines mdText ! c) = ''---''
        \<and> (\<forall>j. 1 \<le> j \<and> j < c \<longrightarrow> trim (splitLines mdText ! j) \<noteq> ''---'')
        \<and> parse (joinWith [CHR 0x0A] (take (c - 1) (drop 1 (splitLines mdText)))) = None"
  then have "extractFrontMatterAndBody parse mdText =
    ((case parse (joinWith [CHR 0x0A] (take (c - 1) (drop 1 (splitLines mdText)))) of
        None \<Rightarrow> YMap [] | Some v \<Rightarrow> if truthy v then v else YMap []),
     joinWith [CHR 0x0A] (drop (c + 1) (splitLines mdText)))"
    by (intro extract_closed) blast+
  with h show "extractFrontMatterAndBody parse mdText
           = (YMap [], joinWith [CHR 0x0A] (drop (c + 1) (splitLines mdText)))"
    by simp
qed

theorem C10_extract_front_matter_witness:
  "trim (hd (splitLines ''# Part 100\<newline>---\<newline>text'')) \<noteq> ''---''
   \<and> extractFrontMatterAndBody (\<lambda>y. None) ''# Part 100\<newline>---\<newline>text''
       = (YMap [], ''# Part 100\<newline>---\<newline>text'')
   \<and> trim (hd (splitLines ''---\<newline>title: [\<newline> --- \<newline>\<newline>text\<newline>'')) = ''---''
   \<and> trim (splitLines ''---\<newline>title: [\<newline> --- \<newline>\<newline>text\<newline>'' ! 1) \<noteq> ''---''
   \<and> trim (splitLines ''---\<newline>title: [\<newline> --- \<newline>\<newline>text\<newline>'' ! 2) = ''---''
   \<and> extractFrontMatterAndBody (\<lambda>y. None) ''---\<newline>title: [\<newline> --- \<newline>\<newline>text\<newline>''
       = (YMap [], ''\<newline>text\<newline>'')"
proof -
  have one: "\<And>j::nat. 1 \<le> j \<and> j < 2 \<Longrightarrow> j = 1" by arith
  have mid: "trim (splitLines ''---\<newline>title: [\<newline> --- \<newline>\<newline>text\<newline>'' ! 1) \<noteq> ''---''"
    by (simp add: trim_def trimEnd_def isSpace_def)
  have "\<forall>j. 1 \<le> j \<and> j < 2
      \<longrightarrow> trim (splitLines ''---\<newline>title: [\<newline> --- \<newline>\<newline>text\<newline>'' ! j) \<noteq> ''---''"
    using one mid by metis
  then show ?thesis
    using C10_extract_front_matter [of "''# Part 100\<newline>---\<newline>text''" "\<lambda>y. None" 0]
      C10_extract_front_matter [of "''---\<newline>title: [\<newline> --- \<newline>\<newline>text\<newline>''" "\<lambda>y. None" 2]
    by (simp add: trim_def trimEnd_def isSpace_def)
qed

section \<open>Facts about the combiner\<close>

lemma foldl_combineStep:
  "foldl (combineStep L files) st es =
     st\<lparr>parts := parts st @ map (docText L files) (filter (hasArtifact L files) es),
        count := count st + length (filter (hasArtifact L files) es),
        warnings := warnings st @ map (missWarning L) (filter (\<lambda>e. \<not> hasArtifact L files e) es)\<rparr>"
proof (induction es arbitrary: st)
  case Nil
  then show ?case by simp
next
  case (Cons e es)
  have step: "combineStep L files st e =
      (if hasArtifact L files e
       then st\<lparr>parts := parts st @ [docText L files e], count := count st + 1\<rparr>
       else st\<lparr>warnings := warnings st @ [missWarning L e]\<rparr>)"
    by (cases "files (mdPath L e)") (simp_all add: combineStep_def hasArtifact_def docText_def)
  show ?case by (simp add: Cons step)
qed

lemma main_combine_eq:
  "main_combine L files entries =
     \<lparr>combined = normalizeSpacing (joinWith [CHR 0x0A] (map (docText L files) (corpusDocs L files entries)))
                  @ [CHR 0x0A],
      combinedCount = length (corpusDocs L files entries),
      combinedWarnings = map (missWarning L)
         (filter (\<lambda>e. \<not> hasArtifact L files e) (sort_key part entries))\<rparr>"
  by (simp add: main_combine_def foldl_combineStep corpusDocs_def Let_def)

lemma sorted_corpusDocs: "sorted (map part (corpusDocs L files entries))"
proof -
  have "sorted (map part (sort_key part entries))" by (rule sorted_sort_key)
  then show ?thesis
    unfolding corpusDocs_def by (rule sorted_filter)
qed

lemma filter_key_distinct:
  "distinct (map f xs) \<Longrightarrow> k \<in> set xs \<Longrightarrow> filter (\<lambda>x. f k = f x) xs = [k]"
proof (induction xs)
  case Nil
  then show ?case by simp
next
  case (Cons x xs)
  show ?case
  proof (cases "k = x")
    case True
    from Cons.prems have "\<forall>y \<in> set xs. f x \<noteq> f y" by auto
    then have "filter (\<lambda>y. f x = f y) xs = []" by (simp add: filter_empty_conv)
    with True show ?thesis by simp
  next
    case False
    with Cons.prems have k: "k \<in> set xs" by simp
    with Cons.prems have "f k \<noteq> f x" by (auto simp: image_iff)
    with Cons k show ?thesis by simp
  qed
qed

lemma sort_key_perm:
  assumes d: "distinct (map f xs)" and m: "mset ys = mset xs"
  shows "sort_key f ys = sort_key f xs"
proof (rule properties_for_sort_key)
  show "mset (sort_key f xs) = mset ys" using m by simp
  show "sorted (map f (sort_key f xs))" by (rule sorted_sort_key)
  fix k assume "k \<in> set (sort_key f xs)"
  then have kx: "k \<in> set xs" by simp
  from m have "set ys = set xs" by (rule mset_eq_setD)
  with kx have ky: "k \<in> set ys" by simp
  from m have "mset (map f ys) = mset (map f xs)" by simp
  with d have dy: "distinct (map f ys)" using mset_eq_imp_distinct_iff by blast
  have "mset (map f (sort_key f xs)) = mset (map f xs)" by simp
  with d have "distinct (map f (sort_key f xs))" using mset_eq_imp_distinct_iff by blast
  with kx have "filter (\<lambda>x. f k = f x) (sort_key f xs) = [k]"
    by (intro filter_key_distinct) simp_all
  moreover from dy ky have "filter (\<lambda>x. f k = f x) ys = [k]" by (rule filter_key_distinct)
  ultimately show "filter (\<lambda>x. f k = f x) (sort_key f xs) = filter (\<lambda>x. f k = f x) ys" by simp
qed

lemma main_combine_perm:
  "distinct (map part entries) \<Longrightarrow> mset entries' = mset entries \<Longrightarrow>
   main_combine L files entries' = main_combine L files entries"
  by (simp add: main_combine_def sort_key_perm [of part entries entries'])

lemma corpusDocs_filter:
  "corpusDocs L files (filter (hasArtifact L files) entries) = corpusDocs L files entries"
  by (simp add: corpusDocs_def filter_sort)

lemma emitRun_0 [simp]: "emitRun 0 = []"
  by (simp add: emitRun_def)

lemma collapseRuns_append:
  "xs \<noteq> [] \<Longrightarrow> last xs \<noteq> CHR 0x0A \<Longrightarrow>
   collapseRuns k (xs @ ys) = collapseRuns k xs @ collapseRuns 0 ys"
proof (induction xs arbitrary: k)
  case Nil
  then show ?case by simp
next
  case (Cons c xs)
  show ?case
  proof (cases "xs = []")
    case True
    with Cons.prems show ?thesis by simp
  next
    case False
    with Cons.prems have "\<And>j. collapseRuns j (xs @ ys) = collapseRuns j xs @ collapseRuns 0 ys"
      by (intro Cons.IH) simp_all
    then show ?thesis by simp
  qed
qed

lemma collapseRuns_head:
  "c \<noteq> CHR 0x0A \<Longrightarrow> collapseRuns k (c # cs) = emitRun k @ collapseRuns 0 (c # cs)"
  by simp

lemma tripleLF_run:
  "m \<le> 2 \<Longrightarrow> c \<noteq> CHR 0x0A \<Longrightarrow> tripleLF (replicate m (CHR 0x0A) @ c # R) = tripleLF R"
proof -
  assume c: "c \<noteq> CHR 0x0A" and "m \<le> 2"
  then consider "m = 0" | "m = 1" | "m = 2" by arith
  then show ?thesis
  proof cases
    case 1
    with c show ?thesis by (cases R; cases "tl R") auto
  next
    case 2
    with c show ?thesis by (cases R; cases "tl R") auto
  next
    case 3
    with c show ?thesis by (cases R; cases "tl R") (auto simp: numeral_2_eq_2)
  qed
qed

lemma tripleLF_short: "length s < 3 \<Longrightarrow> \<not> tripleLF s"
  by (cases s rule: tripleLF.cases) auto

lemma tripleLF_emitRun: "\<not> tripleLF (emitRun k)"
  by (rule tripleLF_short) (simp add: emitRun_def)

lemma no_tripleLF_collapseRuns: "\<not> tripleLF (collapseRuns k t)"
proof (induction t arbitrary: k)
  case Nil
  then show ?case by (simp add: tripleLF_emitRun)
next
  case (Cons c cs)
  show ?case
  proof (cases "c = CHR 0x0A")
    case True
    with Cons show ?thesis by simp
  next
    case False
    have "tripleLF (emitRun k @ c # collapseRuns 0 cs) = tripleLF (collapseRuns 0 cs)"
      unfolding emitRun_def using False by (intro tripleLF_run) auto
    with False Cons show ?thesis by simp
  qed
qed

lemma no_tripleLF_normalizeSpacing: "\<not> tripleLF (normalizeSpacing t)"
  by (simp add: normalizeSpacing_def no_tripleLF_collapseRuns)

lemma docText_shape:
  assumes "hasArtifact L files e"
  shows "\<exists>X. docText L files e = CHR 0x0A # CHR 0x0A # CHR ''<'' # X @ [CHR ''>'', CHR 0x0A]"
proof -
  from assms obtain raw where raw: "files (mdPath L e) = Some raw"
    by (auto simp: hasArtifact_def)
  obtain meta bodyText where ex: "extractFrontMatterAndBody (yamlParse L) raw = (meta, bodyText)"
    by (cases "extractFrontMatterAndBody (yamlParse L) raw")
  show ?thesis
    by (rule exI [of _ "''!-- BEGIN Part_'' @ zeroPadPart (part e) @ '': '' @ name e
       @ '' -->'' @ [CHR 0x0A] @ ''```yaml'' @ [CHR 0x0A] @ yamlStringify L (metaBlock e meta)
       @ ''```'' @ [CHR 0x0A] @ trimEnd bodyText @ [CHR 0x0A] @ ''<!-- END Part_''
       @ zeroPadPart (part e) @ '' --''"])
      (simp add: docText_def raw renderPart_def ex docHeader_def docFooter_def)
qed

lemma docCore_shape:
  assumes "hasArtifact L files e"
  shows "docText L files e = CHR 0x0A # CHR 0x0A # docCore L files e @ [CHR 0x0A]
    \<and> docCore L files e \<noteq> [] \<and> hd (docCore L files e) = CHR ''<''
    \<and> last (docCore L files e) = CHR ''>''"
proof -
  from docText_shape [OF assms] obtain X where
    "docText L files e = CHR 0x0A # CHR 0x0A # CHR ''<'' # X @ [CHR ''>'', CHR 0x0A]" ..
  then show ?thesis by (simp add: docCore_def butlast_append)
qed

lemma collapse_wrapped:
  assumes "cores \<noteq> []"
    and "\<forall>c \<in> set cores. c \<noteq> [] \<and> hd c \<noteq> CHR 0x0A \<and> last c \<noteq> CHR 0x0A"
  shows "collapseRuns k (joinWith [CHR 0x0A] (map (\<lambda>c. CHR 0x0A # CHR 0x0A # c @ [CHR 0x0A]) cores))
    = emitRun (k + 2) @ joinWith [CHR 0x0A, CHR 0x0A] (map (collapseRuns 0) cores) @ [CHR 0x0A]"
  using assms
proof (induction cores arbitrary: k)
  case Nil
  then show ?case by simp
next
  case (Cons c cs)
  from Cons.prems have c: "c \<noteq> []" "hd c \<noteq> CHR 0x0A" "last c \<noteq> CHR 0x0A" by auto
  then obtain d ds where dds: "c = d # ds" "d \<noteq> CHR 0x0A" by (cases c) auto
  have head: "\<And>j. collapseRuns j c = emitRun j @ collapseRuns 0 c"
    using dds by simp
  show ?case
  proof (cases cs)
    case Nil
    have "collapseRuns (k + 2) (c @ [CHR 0x0A]) = collapseRuns (k + 2) c @ collapseRuns 0 [CHR 0x0A]"
      using c by (intro collapseRuns_append)
    also have "\<dots> = emitRun (k + 2) @ collapseRuns 0 c @ [CHR 0x0A]"
      using head [of "k + 2"] by (simp add: emitRun_def)
    finally show ?thesis using Nil by (simp add: numeral_2_eq_2)
  next
    case (Cons c' cs')
    let ?J = "joinWith [CHR 0x0A] (map (\<lambda>c. CHR 0x0A # CHR 0x0A # c @ [CHR 0x0A]) cs)"
    from Cons Cons.prems
    have ih: "collapseRuns 2 ?J
        = emitRun (2 + 2) @ joinWith [CHR 0x0A, CHR 0x0A] (map (collapseRuns 0) cs) @ [CHR 0x0A]"
      by (intro Cons.IH) auto
    have "collapseRuns (k + 2) (c @ CHR 0x0A # CHR 0x0A # ?J)
        = collapseRuns (k + 2) c @ collapseRuns 0 (CHR 0x0A # CHR 0x0A # ?J)"
      using c by (intro collapseRuns_append)
    also have "\<dots> = emitRun (k + 2) @ collapseRuns 0 c @ collapseRuns 2 ?J"
      using head [of "k + 2"] by (simp add: numeral_2_eq_2)
    finally show ?thesis using Cons ih by (simp add: emitRun_def numeral_2_eq_2)
  qed
qed

lemma combined_shape:
  "combined (main_combine L files entries) =
     (if corpusDocs L files entries = [] then [CHR 0x0A]
      else [CHR 0x0A, CHR 0x0A]
        @ joinWith [CHR 0x0A, CHR 0x0A]
            (map (\<lambda>e. normalizeSpacing (docCore L files e)) (corpusDocs L files entries))
        @ [CHR 0x0A, CHR 0x0A])"
proof (cases "corpusDocs L files entries = []")
  case True
  then show ?thesis by (simp add: main_combine_eq normalizeSpacing_def)
next
  case False
  let ?ds = "corpusDocs L files entries"
  have art: "\<forall>e \<in> set ?ds. hasArtifact L files e" by (simp add: corpusDocs_def)
  then have "map (docText L files) ?ds
      = map (\<lambda>c. CHR 0x0A # CHR 0x0A # c @ [CHR 0x0A]) (map (docCore L files) ?ds)"
    using docCore_shape by simp
  moreover have "\<forall>c \<in> set (map (docCore L files) ?ds). c \<noteq> [] \<and> hd c \<noteq> CHR 0x0A \<and> last c \<noteq> CHR 0x0A"
    using art docCore_shape by fastforce
  ultimately have "normalizeSpacing (joinWith [CHR 0x0A] (map (docText L files) ?ds))
      = emitRun (0 + 2) @ joinWith [CHR 0x0A, CHR 0x0A] (map (collapseRuns 0) (map (docCore L files) ?ds))
        @ [CHR 0x0A]"
    unfolding normalizeSpacing_def using False by (simp only: collapse_wrapped map_is_Nil_conv not_False_eq_True)
  with False show ?thesis
    by (simp add: main_combine_eq emitRun_def normalizeSpacing_def comp_def numeral_2_eq_2)
qed

lemma joinWith_last: "xs \<noteq> [] \<Longrightarrow> \<exists>Z. joinWith sep xs = Z @ last xs"
proof (induction xs)
  case Nil
  then show ?case by simp
next
  case (Cons x xs)
  show ?case
  proof (cases xs)
    case Nil
    then show ?thesis by simp
  next
    case (Cons y ys)
    with Cons.IH obtain Z where "joinWith sep xs = Z @ last xs" by auto
    with Cons have "joinWith sep (x # xs) = (x @ sep @ Z) @ last (x # xs)" by simp
    then show ?thesis by blast
  qed
qed

lemma no_tripleLF_combined: "\<not> tripleLF (combined (main_combine L files entries))"
proof (cases "corpusDocs L files entries = []")
  case True
  then show ?thesis by (simp add: combined_shape)
next
  case False
  let ?ds = "corpusDocs L files entries"
  let ?T = "joinWith [CHR 0x0A] (map (docText L files) ?ds)"
  from False have "hasArtifact L files (last ?ds)"
    using last_in_set [of ?ds] by (simp add: corpusDocs_def del: last_in_set)
  from docText_shape [OF this] obtain X where
    X: "docText L files (last ?ds) = CHR 0x0A # CHR 0x0A # CHR ''<'' # X @ [CHR ''>'', CHR 0x0A]" ..
  from False obtain Z where "?T = Z @ last (map (docText L files) ?ds)"
    using joinWith_last [of "map (docText L files) ?ds" "[CHR 0x0A]"] by auto
  with False X have T: "?T = (Z @ CHR 0x0A # CHR 0x0A # CHR ''<'' # X @ [CHR ''>'']) @ [CHR 0x0A]"
    by (simp add: last_map)
  let ?T0 = "Z @ CHR 0x0A # CHR 0x0A # CHR ''<'' # X @ [CHR ''>'']"
  have "collapseRuns 0 (?T0 @ [CHR 0x0A, CHR 0x0A]) = collapseRuns 0 ?T0 @ collapseRuns 0 [CHR 0x0A, CHR 0x0A]"
    by (intro collapseRuns_append) simp_all
  moreover have "collapseRuns 0 (?T0 @ [CHR 0x0A]) = collapseRuns 0 ?T0 @ collapseRuns 0 [CHR 0x0A]"
    by (intro collapseRuns_append) simp_all
  ultimately have "combined (main_combine L files entries) = collapseRuns 0 (?T0 @ [CHR 0x0A, CHR 0x0A])"
    unfolding main_combine_eq using T
    by (simp add: normalizeSpacing_def emitRun_def numeral_2_eq_2)
  then show ?thesis by (simp only: no_tripleLF_collapseRuns not_False_eq_True)
qed

subsection \<open>Text that the corpus holds verbatim\<close>












section \<open>The corpus: order, provenance, missing artifacts, spacing\<close>

text \<open>
  C6. For every manifest, the corpus is made of the blocks of the entries that have an
  artifact, in ascending order of their numeric identifier \<open>part\<close>, whatever the order of
  the manifest: the documents of the corpus are \<open>corpusDocs\<close>, which is sorted by \<open>part\<close>
  and holds exactly the entries with an artifact; and when the identifiers of the manifest
  are distinct, every reordering of the manifest gives the same result. The identifiers
  087, 012, 100 give the order 012, 087, 100.
\<close>

theorem C6_corpus_sorted:
  "combined (main_combine L files entries)
     = normalizeSpacing (joinWith [CHR 0x0A] (map (docText L files) (corpusDocs L files entries)))
       @ [CHR 0x0A]
   \<and> sorted (map part (corpusDocs L files entries))
   \<and> mset (corpusDocs L files entries) = filter_mset (hasArtifact L files) (mset entries)
   \<and> (distinct (map part entries) \<and> mset entries' = mset entries
        \<longrightarrow> main_combine L files entries' = main_combine L files entries)"
  using main_combine_perm [of entries entries' L files]
  by (simp add: main_combine_eq sorted_corpusDocs) (simp add: corpusDocs_def)

theorem C6_corpus_sorted_witness:
  "map part (corpusDocs sampleLib sampleFiles [entry087, entry012, entry100]) = [12, 87, 100]
   \<and> sorted (map part (corpusDocs sampleLib sampleFiles [entry087, entry012, entry100]))
   \<and> distinct (map part [entry087, entry012, entry100])
   \<and> mset [entry100, entry087, entry012] = mset [entry087, entry012, entry100]
   \<and> main_combine sampleLib sampleFiles [entry100, entry087, entry012]
       = main_combine sampleLib sampleFiles [entry087, entry012, entry100]"
proof -
  have docs: "map part (corpusDocs sampleLib sampleFiles [entry087, entry012, entry100]) = [12, 87, 100]"
    by (simp add: corpusDocs_def hasArtifact_def sampleLib_def sampleFiles_def entry012_def
        entry087_def entry100_def mdPath_def zeroPadPart_def padStart_def showNat.simps)
  have dist: "distinct (map part [entry087, entry012, entry100])"
    by (simp add: entry012_def entry087_def entry100_def)
  have perm: "mset [entry100, entry087, entry012] = mset [entry087, entry012, entry100]"
    by (simp add: add_mset_commute)
  from C6_corpus_sorted [of sampleLib sampleFiles "[entry087, entry012, entry100]"
      "[entry100, entry087, entry012]"] docs dist perm
  show ?thesis by simp
qed



text \<open>
  C8. For every manifest entry whose markdown artifact does not exist, the combiner
  records the warning of that entry, leaves the entry out of the corpus, and returns the
  corpus and the count of the remaining entries: the very result it returns for the
  manifest without the entries that lack an artifact. The combiner returns for every
  manifest; a missing artifact ends nothing.
\<close>

theorem C8_missing_artifact_skipped:
  "files (mdPath L e) = None \<and> e \<in> set entries
   \<longrightarrow> missWarning L e \<in> set (combinedWarnings (main_combine L files entries))
     \<and> e \<notin> set (corpusDocs L files entries)
     \<and> combined (main_combine L files entries)
         = combined (main_combine L files (filter (hasArtifact L files) entries))
     \<and> combinedCount (main_combine L files entries)
         = combinedCount (main_combine L files (filter (hasArtifact L files) entries))
     \<and> combinedCount (main_combine L files entries)
         = length (filter (hasArtifact L files) entries)"
proof (intro impI)
  assume h: "files (mdPath L e) = None \<and> e \<in> set entries"
  then have "\<not> hasArtifact L files e" by (simp add: hasArtifact_def)
  with h have "e \<in> set (filter (\<lambda>e. \<not> hasArtifact L files e) (sort_key part entries))"
    and "e \<notin> set (corpusDocs L files entries)"
    by (simp_all add: corpusDocs_def)
  moreover have "length (corpusDocs L files entries) = length (filter (hasArtifact L files) entries)"
    by (simp add: corpusDocs_def filter_sort)
  ultimately show "missWarning L e \<in> set (combinedWarnings (main_combine L files entries))
     \<and> e \<notin> set (corpusDocs L files entries)
     \<and> combined (main_combine L files entries)
         = combined (main_combine L files (filter (hasArtifact L files) entries))
     \<and> combinedCount (main_combine L files entries)
         = combinedCount (main_combine L files (filter (hasArtifact L files) entries))
     \<and> combinedCount (main_combine L files entries)
         = length (filter (hasArtifact L files) entries)"
    by (simp add: main_combine_eq corpusDocs_filter)
qed

theorem C8_missing_artifact_skipped_witness:
  "fewerFiles (mdPath sampleLib entry087) = None
   \<and> entry087 \<in> set [entry087, entry012, entry100]
   \<and> combinedWarnings (main_combine sampleLib fewerFiles [entry087, entry012, entry100])
       = [''[MISS] skipping Part 087 (not found: /repo/md/car/Part_087.md)'']
   \<and> missWarning sampleLib entry087
       \<in> set (combinedWarnings (main_combine sampleLib fewerFiles [entry087, entry012, entry100]))
   \<and> map part (corpusDocs sampleLib fewerFiles [entry087, entry012, entry100]) = [12, 100]
   \<and> filter (hasArtifact sampleLib fewerFiles) [entry087, entry012, entry100] = [entry012, entry100]
   \<and> combined (main_combine sampleLib fewerFiles [entry087, entry012, entry100])
       = combined (main_combine sampleLib fewerFiles [entry012, entry100])
   \<and> combinedCount (main_combine sampleLib fewerFiles [entry087, entry012, entry100]) = 2"
proof -
  have miss: "fewerFiles (mdPath sampleLib entry087) = None"
    by (simp add: sampleLib_def fewerFiles_def entry087_def mdPath_def zeroPadPart_def
        padStart_def showNat.simps)
  have keep: "filter (hasArtifact sampleLib fewerFiles) [entry087, entry012, entry100]
      = [entry012, entry100]"
    by (simp add: hasArtifact_def sampleLib_def fewerFiles_def entry012_def entry087_def
        entry100_def mdPath_def zeroPadPart_def padStart_def showNat.simps)
  have docs: "map part (corpusDocs sampleLib fewerFiles [entry087, entry012, entry100]) = [12, 100]"
    by (simp add: corpusDocs_def hasArtifact_def sampleLib_def fewerFiles_def entry012_def
        entry087_def entry100_def mdPath_def zeroPadPart_def padStart_def showNat.simps)
  have warn: "combinedWarnings (main_combine sampleLib fewerFiles [entry087, entry012, entry100])
       = [''[MISS] skipping Part 087 (not found: /repo/md/car/Part_087.md)'']"
    by (simp add: main_combine_eq hasArtifact_def missWarning_def sampleLib_def fewerFiles_def
        entry012_def entry087_def entry100_def mdPath_def zeroPadPart_def padStart_def
        showNat.simps)
  from C8_missing_artifact_skipped [of fewerFiles sampleLib entry087
      "[entry087, entry012, entry100]"] miss keep docs warn
  show ?thesis by simp
qed

text \<open>
  C9, as the code has it. For every manifest and every set of artifacts, the corpus holds
  no three newline characters in a row (no two empty lines in a row), and it is: the single
  newline when no entry has an artifact; otherwise two newlines, the blocks of the
  documents (each from its BEGIN marker to its END marker, its own runs of newlines
  collapsed) separated by exactly one empty line, and two newlines at the end: the newline
  that ends the line of the last END marker and one more. The corpus of a manifest with
  a document does not end with exactly one newline.
\<close>

theorem C9_corpus_spacing:
  "\<not> tripleLF (combined (main_combine L files entries))
   \<and> combined (main_combine L files entries) =
       (if corpusDocs L files entries = [] then [CHR 0x0A]
        else [CHR 0x0A, CHR 0x0A]
          @ joinWith [CHR 0x0A, CHR 0x0A]
              (map (\<lambda>e. normalizeSpacing (docCore L files e)) (corpusDocs L files entries))
          @ [CHR 0x0A, CHR 0x0A])"
  using no_tripleLF_combined [of L files entries] combined_shape [of L files entries]
  by simp

theorem C9_corpus_spacing_witness:
  "\<not> tripleLF (combined (main_combine sampleLib sampleFiles [entry100, entry087]))
   \<and> combined (main_combine sampleLib sampleFiles [entry100, entry087])
       = ''\<newline>\<newline><!-- BEGIN Part_087: Eighty-seven -->\<newline>```yaml\<newline>part: 087\<newline>name: Eighty-seven\<newline>source_url: https://example.org/m087.pdf\<newline>```\<newline># Eighty-seven\<newline>\<newline>Rule 87\<newline><!-- END Part_087 -->\<newline>\<newline><!-- BEGIN Part_100: Hundred -->\<newline>```yaml\<newline>part: 100\<newline>name: Hundred\<newline>source_url: https://example.org/m100.pdf\<newline>```\<newline>Rule 100\<newline><!-- END Part_100 -->\<newline>\<newline>''"
proof -
  have "combined (main_combine sampleLib sampleFiles [entry100, entry087])
       = ''\<newline>\<newline><!-- BEGIN Part_087: Eighty-seven -->\<newline>```yaml\<newline>part: 087\<newline>name: Eighty-seven\<newline>source_url: https://example.org/m087.pdf\<newline>```\<newline># Eighty-seven\<newline>\<newline>Rule 87\<newline><!-- END Part_087 -->\<newline>\<newline><!-- BEGIN Part_100: Hundred -->\<newline>```yaml\<newline>part: 100\<newline>name: Hundred\<newline>source_url: https://example.org/m100.pdf\<newline>```\<newline>Rule 100\<newline><!-- END Part_100 -->\<newline>\<newline>''"
    by (simp add: sampleLib_def entry087_def entry100_def sampleFiles_def
        main_combine_def combineStep_def mdPath_def zeroPadPart_def padStart_def showNat.simps
        renderPart_def extractFrontMatterAndBody_def findClose.simps trim_def trimEnd_def
        isSpace_def docHeader_def docFooter_def metaBlock_def normalizeSpacing_def emitRun_def
        numeral_2_eq_2)
  moreover have "\<not> tripleLF (combined (main_combine sampleLib sampleFiles [entry100, entry087]))"
    using C9_corpus_spacing [of sampleLib sampleFiles "[entry100, entry087]"] by (rule conjunct1)
  ultimately show ?thesis by (intro conjI)
qed

text \<open>
  C9 as stated fails on the code in its last part: the corpus of the manifest with the
  one entry Part 100 ends with two newline characters, not with exactly one.
\<close>

theorem C9_one_trailing_newline_counterexample:
  "combined (main_combine sampleLib sampleFiles [entry100])
     = ''\<newline>\<newline><!-- BEGIN Part_100: Hundred -->\<newline>```yaml\<newline>part: 100\<newline>name: Hundred\<newline>source_url: https://example.org/m100.pdf\<newline>```\<newline>Rule 100\<newline><!-- END Part_100 -->\<newline>\<newline>''
   \<and> \<not> exactlyOneTrailingNewline (combined (main_combine sampleLib sampleFiles [entry100]))"
proof -
  have "combined (main_combine sampleLib sampleFiles [entry100])
     = ''\<newline>\<newline><!-- BEGIN Part_100: Hundred -->\<newline>```yaml\<newline>part: 100\<newline>name: Hundred\<newline>source_url: https://example.org/m100.pdf\<newline>```\<newline>Rule 100\<newline><!-- END Part_100 -->\<newline>\<newline>''"
    by (simp add: sampleLib_def entry100_def sampleFiles_def
        main_combine_def combineStep_def mdPath_def zeroPadPart_def padStart_def showNat.simps
        renderPart_def extractFrontMatterAndBody_def findClose.simps trim_def trimEnd_def
        isSpace_def docHeader_def docFooter_def metaBlock_def normalizeSpacing_def emitRun_def
        numeral_2_eq_2)
  then show ?thesis by (simp add: exactlyOneTrailingNewline_def)
qed

section \<open>Facts about the fetcher\<close>

lemma fetch_trace:
  "\<exists>gs. gs \<noteq> [] \<and> length gs \<le> Suc m \<and> hd gs = t
     \<and> trace (snd (snd (fetchWithRedirects net L t m (jar, w)))) = trace w @ map Get gs
     \<and> requests (snd (snd (fetchWithRedirects net L t m (jar, w)))) = requests w + length gs"
proof (induction m arbitrary: t jar w)
  case 0
  show ?case
    by (rule exI [of _ "[t]"])
       (simp add: fetchWithRedirects.simps [of net L t 0] emit_def Let_def
          split: outcome.splits option.splits)
next
  case (Suc m)
  show ?case
  proof (cases "net (requests w) t (cookieHeader jar)")
    case (RequestError msg)
    then show ?thesis
      by (intro exI [of _ "[t]"])
         (simp add: fetchWithRedirects.simps [of net L t "Suc m"] emit_def)
  next
    case (Responds res)
    let ?jar1 = "case setCookie (headers res) of None \<Rightarrow> jar | Some cookies \<Rightarrow> foldl storeCookie jar cookies"
    let ?w1 = "emit (Get t) (w\<lparr>requests := requests w + 1\<rparr>)"
    show ?thesis
    proof (cases "redirectTarget res")
      case (Some loc)
      let ?t' = "resolveUrl L loc t"
      from Suc [of ?t' ?jar1 ?w1] obtain gs where gs: "gs \<noteq> []" "length gs \<le> Suc m" "hd gs = ?t'"
        "trace (snd (snd (fetchWithRedirects net L ?t' m (?jar1, ?w1)))) = trace ?w1 @ map Get gs"
        "requests (snd (snd (fetchWithRedirects net L ?t' m (?jar1, ?w1)))) = requests ?w1 + length gs"
        by blast
      have eq: "fetchWithRedirects net L t (Suc m) (jar, w) = fetchWithRedirects net L ?t' m (?jar1, ?w1)"
        using Responds Some by (simp add: fetchWithRedirects.simps [of net L t "Suc m"] Let_def)
      show ?thesis
        by (rule exI [of _ "t # gs"]) (use gs in \<open>simp add: eq emit_def\<close>)
    next
      case None
      with Responds show ?thesis
        by (intro exI [of _ "[t]"])
           (auto simp add: fetchWithRedirects.simps [of net L t "Suc m"] emit_def Let_def)
    qed
  qed
qed

lemma fetch_trace':
  obtains gs where "gs \<noteq> []" "length gs \<le> Suc m" "hd gs = t"
    "trace (snd (snd (fetchWithRedirects net L t m s))) = trace (snd s) @ map Get gs"
  using fetch_trace [of m t net L "fst s" "snd s"] by auto

lemma downloadPdf_error1:
  "tryOnce net L (url e) (afterMkdir L e s) = (Inl err, s1) \<Longrightarrow>
   downloadPdf net L e s = (Inl err, s1)"
  by (simp add: downloadPdf_def afterMkdir_def Let_def)

lemma downloadPdf_accept1:
  "tryOnce net L (url e) (afterMkdir L e s) = (Inr res1, s1) \<Longrightarrow> \<not> rejected res1 \<Longrightarrow>
   downloadPdf net L e s = (Inr (resultOf L e True res1), saved L e res1 s1)"
  by (simp add: downloadPdf_def afterMkdir_def Let_def resultOf_def saved_def)

lemma downloadPdf_retry:
  "tryOnce net L (url e) (afterMkdir L e s) = (Inr res1, s1) \<Longrightarrow> rejected res1 \<Longrightarrow>
   downloadPdf net L e s =
     (case tryOnce net L (url e) (sleep 400 s1) of
        (Inl err, s2) \<Rightarrow> (Inl err, s2)
      | (Inr res2, s2) \<Rightarrow>
          if rejected res2 then (Inr (resultOf L e False res2), s2)
          else (Inr (resultOf L e True res2), saved L e res2 s2))"
  by (simp add: downloadPdf_def afterMkdir_def Let_def resultOf_def saved_def
      split: prod.splits sum.splits)

lemma downloadPdf_ok_iff:
  "downloadPdf net L e s = (Inr r, s') \<Longrightarrow>
   ok r \<longleftrightarrow> resMime r = ''application/pdf'' \<and> 10240 \<le> resSize r"
proof -
  assume d: "downloadPdf net L e s = (Inr r, s')"
  obtain o1 s1 where t1: "tryOnce net L (url e) (afterMkdir L e s) = (o1, s1)"
    by (cases "tryOnce net L (url e) (afterMkdir L e s)")
  show ?thesis
  proof (cases o1)
    case (Inl err)
    with t1 d show ?thesis by (simp add: downloadPdf_error1)
  next
    case (Inr res1)
    show ?thesis
    proof (cases "rejected res1")
      case False
      with t1 Inr d show ?thesis
        by (auto simp: downloadPdf_accept1 resultOf_def rejected_def)
    next
      case True
      obtain o2 s2 where t2: "tryOnce net L (url e) (sleep 400 s1) = (o2, s2)"
        by (cases "tryOnce net L (url e) (sleep 400 s1)")
      with t1 Inr True d show ?thesis
        by (cases o2) (auto simp: downloadPdf_retry resultOf_def rejected_def split: if_splits)
    qed
  qed
qed

lemma tryOnce_trace:
  obtains gs where "gs \<noteq> []" "length gs \<le> 9" "hd gs = t"
    "trace (snd (snd (tryOnce net L t s))) = trace (snd s) @ map Get gs"
  using fetch_trace' [of 8 t net L s] by (auto simp: tryOnce_def)

lemma downloadPdf_retry_trace:
  assumes t1: "tryOnce net L (url e) (afterMkdir L e s) = (Inr res1, s1)" and rej: "rejected res1"
  shows "\<exists>gs1 gs2 tail.
      trace (snd (snd (downloadPdf net L e s)))
        = trace (snd s) @ [Mkdir (pathDirname L (pdfOutPath L e))] @ map Get gs1 @ [Sleep 400]
          @ map Get gs2 @ tail
      \<and> gs1 \<noteq> [] \<and> hd gs1 = url e \<and> length gs1 \<le> 9
      \<and> gs2 \<noteq> [] \<and> hd gs2 = url e \<and> length gs2 \<le> 9
      \<and> (tail = [] \<or> (\<exists>payload. tail = [WriteFile (pdfOutPath L e @ ''.tmp'') payload,
                                          Rename (pdfOutPath L e @ ''.tmp'') (pdfOutPath L e)]))"
proof -
  obtain gs1 where g1: "gs1 \<noteq> []" "length gs1 \<le> 9" "hd gs1 = url e"
    "trace (snd (snd (tryOnce net L (url e) (afterMkdir L e s)))) = trace (snd (afterMkdir L e s)) @ map Get gs1"
    by (rule tryOnce_trace)
  obtain gs2 where g2: "gs2 \<noteq> []" "length gs2 \<le> 9" "hd gs2 = url e"
    "trace (snd (snd (tryOnce net L (url e) (sleep 400 s1)))) = trace (snd (sleep 400 s1)) @ map Get gs2"
    by (rule tryOnce_trace)
  from g1(4) t1 have tr1: "trace (snd s1) = trace (snd s) @ [Mkdir (pathDirname L (pdfOutPath L e))] @ map Get gs1"
    by (simp add: afterMkdir_def emit_def)
  obtain o2 s2 where t2: "tryOnce net L (url e) (sleep 400 s1) = (o2, s2)"
    by (cases "tryOnce net L (url e) (sleep 400 s1)")
  with g2(4) tr1 have tr2: "trace (snd s2) = trace (snd s) @ [Mkdir (pathDirname L (pdfOutPath L e))]
      @ map Get gs1 @ [Sleep 400] @ map Get gs2"
    by (simp add: sleep_def emit_def)
  have "\<exists>tail. trace (snd (snd (downloadPdf net L e s))) = trace (snd s2) @ tail
      \<and> (tail = [] \<or> (\<exists>payload. tail = [WriteFile (pdfOutPath L e @ ''.tmp'') payload,
                                          Rename (pdfOutPath L e @ ''.tmp'') (pdfOutPath L e)]))"
  proof (cases o2)
    case (Inl err)
    with t1 rej t2 show ?thesis by (simp add: downloadPdf_retry)
  next
    case (Inr res2)
    with t1 rej t2 show ?thesis
      by (cases "rejected res2") (simp_all add: downloadPdf_retry saved_def emit_def)
  qed
  with tr2 g1 g2 show ?thesis by auto
qed

lemma downloadAll_step:
  "downloadPdf net L e s = (Inr r, s1) \<Longrightarrow>
   downloadAll net L (e # es) s =
     (case downloadAll net L es (logged r s1) of
        (Inl err, s2) \<Rightarrow> (Inl err, s2)
      | (Inr rs, s2) \<Rightarrow> (Inr ((e, r) # rs), s2))"
  by (simp add: logged_def)

lemma downloadAll_abort:
  "downloadPdf net L e s = (Inl err, s1) \<Longrightarrow> downloadAll net L (e # es) s = (Inl err, s1)"
  by simp

section \<open>The fetcher: validation, retry, network errors\<close>

text \<open>
  C1 is not what the batch downloader does, by a missed test: its \<open>downloadPdf\<close> never
  looks at the leading bytes of the payload. A response labelled \<open>application/pdf\<close> whose
  10240 bytes are an HTML page comes back \<open>ok\<close> (and is saved), where the claim asks for
  the signature \<open>%PDF-\<close>. The downloader of the Act refuses the same response through
  \<open>looksLikePdf\<close>.
\<close>

theorem C1_bad_signature_accepted:
  "fst (downloadPdf junkNet sampleLib entry012 start)
     = Inr \<lparr>ok = True, resPart = ''012'', resSize = 10240, resMime = ''application/pdf'',
            resOutPath = ''/repo/download/car/Part_012_Consolidation.pdf''\<rparr>
   \<and> \<not> looksLikePdf (body junkFile)
   \<and> fst (downloadPdf_caa junkNet sampleLib ''https://example.org/m012.pdf''
            ''/repo/download/caa/act.pdf'' \<lparr>requests = 0, trace = []\<rparr>)
     = Inl (UnexpectedResponse 200 ''application/pdf'' 10240)"
  by (simp add: downloadPdf_def downloadPdf_caa_def tryOnce_def fetchWithRedirects.simps
      redirectTarget_def sleep_def emit_def start_def sampleLib_def entry012_def pdfOutPath_def
      computeDefaultPdfPath_def zeroPadPart_def padStart_def showNat.simps cookieHeader_def
      rejected_def mimeType_def trim_def trimEnd_def isSpace_def junkNet_def junkFile_def
      looksLikePdf_def Let_def)

text \<open>
  What the batch downloader does test. Its \<open>downloadPdf\<close> judges one response: the
  first, or, when the first is rejected, the second. Its result is ok if and only if that
  response has the content type \<open>application/pdf\<close> (parameters after \<open>;\<close> and white
  space aside) and a payload of at least 10240 bytes; the result carries the type and the
  size of that response.
\<close>

theorem batch_ok_by_type_and_size:
  "(tryOnce net L (url e) (afterMkdir L e s) = (Inr res1, s1) \<and> \<not> rejected res1
      \<longrightarrow> downloadPdf net L e s = (Inr (resultOf L e True res1), saved L e res1 s1))
   \<and> (tryOnce net L (url e) (afterMkdir L e s) = (Inr res1, s1) \<and> rejected res1
        \<and> tryOnce net L (url e) (sleep 400 s1) = (Inr res2, s2)
      \<longrightarrow> downloadPdf net L e s =
            (if mimeType res2 = ''application/pdf'' \<and> 10240 \<le> length (body res2)
             then (Inr (resultOf L e True res2), saved L e res2 s2)
             else (Inr (resultOf L e False res2), s2)))
   \<and> (downloadPdf net L e s = (Inr r, s')
      \<longrightarrow> (ok r \<longleftrightarrow> resMime r = ''application/pdf'' \<and> 10240 \<le> resSize r))"
proof (intro conjI impI)
  assume "tryOnce net L (url e) (afterMkdir L e s) = (Inr res1, s1) \<and> \<not> rejected res1"
  then show "downloadPdf net L e s = (Inr (resultOf L e True res1), saved L e res1 s1)"
    by (simp add: downloadPdf_accept1)
next
  assume h: "tryOnce net L (url e) (afterMkdir L e s) = (Inr res1, s1) \<and> rejected res1
        \<and> tryOnce net L (url e) (sleep 400 s1) = (Inr res2, s2)"
  then have "downloadPdf net L e s =
      (if rejected res2 then (Inr (resultOf L e False res2), s2)
       else (Inr (resultOf L e True res2), saved L e res2 s2))"
    by (simp add: downloadPdf_retry)
  then show "downloadPdf net L e s =
            (if mimeType res2 = ''application/pdf'' \<and> 10240 \<le> length (body res2)
             then (Inr (resultOf L e True res2), saved L e res2 s2)
             else (Inr (resultOf L e False res2), s2))"
    by (auto simp: rejected_def)
next
  assume "downloadPdf net L e s = (Inr r, s')"
  then show "ok r \<longleftrightarrow> resMime r = ''application/pdf'' \<and> 10240 \<le> resSize r"
    by (rule downloadPdf_ok_iff)
qed

theorem batch_ok_by_type_and_size_witness:
  "tryOnce junkNet sampleLib (url entry012) (afterMkdir sampleLib entry012 start)
     = (Inr junkFile, [], \<lparr>requests = 1,
          trace = [Mkdir ''/repo/download/car'', Get ''https://example.org/m012.pdf'']\<rparr>)
   \<and> \<not> rejected junkFile
   \<and> tryOnce retryNet sampleLib (url entry012) (afterMkdir sampleLib entry012 start)
     = (Inr htmlPage, [], \<lparr>requests = 1,
          trace = [Mkdir ''/repo/download/car'', Get ''https://example.org/m012.pdf'']\<rparr>)
   \<and> rejected htmlPage
   \<and> tryOnce retryNet sampleLib (url entry012)
        (sleep 400 ([], \<lparr>requests = 1,
          trace = [Mkdir ''/repo/download/car'', Get ''https://example.org/m012.pdf'']\<rparr>))
     = (Inr pdfFile, [], \<lparr>requests = 2,
          trace = [Mkdir ''/repo/download/car'', Get ''https://example.org/m012.pdf'', Sleep 400,
                   Get ''https://example.org/m012.pdf'']\<rparr>)
   \<and> fst (downloadPdf junkNet sampleLib entry012 start) = Inr (resultOf sampleLib entry012 True junkFile)
   \<and> downloadPdf retryNet sampleLib entry012 start
     = (Inr (resultOf sampleLib entry012 True pdfFile),
        saved sampleLib entry012 pdfFile ([], \<lparr>requests = 2,
          trace = [Mkdir ''/repo/download/car'', Get ''https://example.org/m012.pdf'', Sleep 400,
                   Get ''https://example.org/m012.pdf'']\<rparr>))
   \<and> ok (resultOf sampleLib entry012 True pdfFile)
   \<and> resMime (resultOf sampleLib entry012 True pdfFile) = ''application/pdf''
   \<and> resSize (resultOf sampleLib entry012 True pdfFile) = 10245"
proof -
  let ?s1 = "([], \<lparr>requests = 1,
          trace = [Mkdir ''/repo/download/car'', Get ''https://example.org/m012.pdf'']\<rparr>)"
  let ?s2 = "([], \<lparr>requests = 2,
          trace = [Mkdir ''/repo/download/car'', Get ''https://example.org/m012.pdf'', Sleep 400,
                   Get ''https://example.org/m012.pdf'']\<rparr>)"
  have j1: "tryOnce junkNet sampleLib (url entry012) (afterMkdir sampleLib entry012 start)
      = (Inr junkFile, ?s1)"
    by (simp add: tryOnce_def fetchWithRedirects.simps redirectTarget_def afterMkdir_def emit_def start_def
        sampleLib_def entry012_def pdfOutPath_def computeDefaultPdfPath_def zeroPadPart_def
        padStart_def showNat.simps cookieHeader_def junkNet_def junkFile_def Let_def)
  have j2: "\<not> rejected junkFile"
    by (simp add: rejected_def mimeType_def trim_def trimEnd_def isSpace_def junkFile_def)
  have r1: "tryOnce retryNet sampleLib (url entry012) (afterMkdir sampleLib entry012 start)
      = (Inr htmlPage, ?s1)"
    by (simp add: tryOnce_def fetchWithRedirects.simps redirectTarget_def afterMkdir_def emit_def start_def
        sampleLib_def entry012_def pdfOutPath_def computeDefaultPdfPath_def zeroPadPart_def
        padStart_def showNat.simps cookieHeader_def retryNet_def htmlPage_def Let_def)
  have r2: "rejected htmlPage"
    by (simp add: rejected_def mimeType_def trim_def trimEnd_def isSpace_def htmlPage_def)
  have r3: "tryOnce retryNet sampleLib (url entry012) (sleep 400 ?s1) = (Inr pdfFile, ?s2)"
    by (simp add: tryOnce_def fetchWithRedirects.simps redirectTarget_def sleep_def emit_def
        entry012_def cookieHeader_def retryNet_def pdfFile_def Let_def)
  have r4: "mimeType pdfFile = ''application/pdf'' \<and> 10240 \<le> length (body pdfFile)"
    by (simp add: mimeType_def trim_def trimEnd_def isSpace_def pdfFile_def)
  have sz: "resSize (resultOf sampleLib entry012 True pdfFile) = 10245"
    by (simp add: resultOf_def pdfFile_def)
  have mt: "resMime (resultOf sampleLib entry012 True pdfFile) = ''application/pdf''"
    using r4 by (simp add: resultOf_def)
  from batch_ok_by_type_and_size [of junkNet sampleLib entry012 start junkFile ?s1]
    j1 j2
  have a: "fst (downloadPdf junkNet sampleLib entry012 start)
      = Inr (resultOf sampleLib entry012 True junkFile)"
    by simp
  from batch_ok_by_type_and_size [of retryNet sampleLib entry012 start htmlPage ?s1 pdfFile ?s2]
    r1 r2 r3 r4
  have b: "downloadPdf retryNet sampleLib entry012 start
      = (Inr (resultOf sampleLib entry012 True pdfFile), saved sampleLib entry012 pdfFile ?s2)"
    by simp
  from batch_ok_by_type_and_size [of retryNet sampleLib entry012 start htmlPage ?s1 pdfFile ?s2
      "resultOf sampleLib entry012 True pdfFile" "saved sampleLib entry012 pdfFile ?s2"] b mt sz
  have c: "ok (resultOf sampleLib entry012 True pdfFile)"
    by simp
  from j1 j2 r1 r2 r3 a b c mt sz show ?thesis by simp
qed

text \<open>
  C2 fails on the code by a missed case. The loop of \<open>main\<close> awaits \<open>downloadPdf\<close> outside
  any \<open>try\<close>, and \<open>downloadPdf\<close> awaits the request outside any \<open>try\<close>: when the
  connection of the first document is reset, the run ends with exit code 1, writes no
  report and never requests the second document. (\<open>warmSession\<close> and the conversion
  script do catch per step.)
\<close>

theorem C2_network_error_ends_the_run:
  "exitCode (main_download brokenNet sampleLib [entry012, entry087]) = 1
   \<and> report (main_download brokenNet sampleLib [entry012, entry087]) = None
   \<and> trace (final (main_download brokenNet sampleLib [entry012, entry087]))
       = [Get ''https://www.aviation.govt.nz/rules/rule-part/'', Mkdir ''/repo/download/car'',
          Get ''https://example.org/m012.pdf'']"
  by (simp add: main_download_def warmSession_def downloadPdf_def tryOnce_def
      fetchWithRedirects.simps redirectTarget_def emit_def sampleLib_def entry012_def entry087_def pdfOutPath_def
      computeDefaultPdfPath_def zeroPadPart_def padStart_def showNat.simps cookieHeader_def
      brokenNet_def pdfFile_def Let_def)

text \<open>
  C3 is not what the downloaders do for a first response that fails the signature alone,
  by the test missing in C1. For the response labelled \<open>application/pdf\<close> whose 10240
  bytes are an HTML page, the batch downloader makes one request, does not wait, does not
  retry, and saves the payload; the downloader of the Act makes one request, does not
  wait, does not retry, and refuses the document.
\<close>

theorem C3_bad_signature_not_retried:
  "\<not> looksLikePdf (body junkFile)
   \<and> downloadPdf junkNet sampleLib entry012 start
     = (Inr \<lparr>ok = True, resPart = ''012'', resSize = 10240, resMime = ''application/pdf'',
              resOutPath = ''/repo/download/car/Part_012_Consolidation.pdf''\<rparr>,
        [], \<lparr>requests = 1,
          trace = [Mkdir ''/repo/download/car'', Get ''https://example.org/m012.pdf'',
                   WriteFile ''/repo/download/car/Part_012_Consolidation.pdf.tmp'' (body junkFile),
                   Rename ''/repo/download/car/Part_012_Consolidation.pdf.tmp''
                     ''/repo/download/car/Part_012_Consolidation.pdf'']\<rparr>)
   \<and> downloadPdf_caa junkNet sampleLib ''https://example.org/act.pdf''
        ''/repo/download/caa/act.pdf'' \<lparr>requests = 0, trace = []\<rparr>
     = (Inl (UnexpectedResponse 200 ''application/pdf'' 10240),
        \<lparr>requests = 1,
          trace = [Mkdir ''/repo/download/caa'', Get ''https://example.org/act.pdf'']\<rparr>)"
  by (simp add: downloadPdf_def downloadPdf_caa_def tryOnce_def fetchWithRedirects.simps
      redirectTarget_def sleep_def emit_def start_def sampleLib_def entry012_def pdfOutPath_def
      computeDefaultPdfPath_def zeroPadPart_def padStart_def showNat.simps cookieHeader_def
      rejected_def mimeType_def trim_def trimEnd_def isSpace_def junkNet_def junkFile_def
      looksLikePdf_def Let_def)

text \<open>
  What the batch downloader does when its own test (type or size) rejects the first
  response: it waits 400 ms and makes exactly one more attempt. Its events are the
  directory, the requests of the first attempt, one \<open>Sleep 400\<close>, the requests of the
  second attempt (each attempt starts at the document's URL and follows at most 8
  redirects), and nothing more but the write and the rename of an accepted payload. If
  the second response is rejected too, the result of the document is a failure
  (\<open>ok = False\<close>) and the loop of \<open>main\<close> goes on with the remaining entries.
\<close>

theorem batch_one_retry_after_400ms:
  "tryOnce net L (url e) (afterMkdir L e s) = (Inr res1, s1) \<and> rejected res1
   \<longrightarrow> (\<exists>gs1 gs2 tail.
          trace (snd (snd (downloadPdf net L e s)))
            = trace (snd s) @ [Mkdir (pathDirname L (pdfOutPath L e))] @ map Get gs1
              @ [Sleep 400] @ map Get gs2 @ tail
          \<and> gs1 \<noteq> [] \<and> hd gs1 = url e \<and> length gs1 \<le> 9
          \<and> gs2 \<noteq> [] \<and> hd gs2 = url e \<and> length gs2 \<le> 9
          \<and> (tail = [] \<or> (\<exists>payload. tail = [WriteFile (pdfOutPath L e @ ''.tmp'') payload,
                                              Rename (pdfOutPath L e @ ''.tmp'') (pdfOutPath L e)])))
     \<and> (tryOnce net L (url e) (sleep 400 s1) = (Inr res2, s2) \<and> rejected res2
        \<longrightarrow> downloadPdf net L e s = (Inr (resultOf L e False res2), s2)
          \<and> downloadAll net L (e # es) s =
              (case downloadAll net L es (logged (resultOf L e False res2) s2) of
                 (Inl err, s3) \<Rightarrow> (Inl err, s3)
               | (Inr rs, s3) \<Rightarrow> (Inr ((e, resultOf L e False res2) # rs), s3)))"
proof (intro impI conjI)
  assume h: "tryOnce net L (url e) (afterMkdir L e s) = (Inr res1, s1) \<and> rejected res1"
  then show "\<exists>gs1 gs2 tail.
          trace (snd (snd (downloadPdf net L e s)))
            = trace (snd s) @ [Mkdir (pathDirname L (pdfOutPath L e))] @ map Get gs1
              @ [Sleep 400] @ map Get gs2 @ tail
          \<and> gs1 \<noteq> [] \<and> hd gs1 = url e \<and> length gs1 \<le> 9
          \<and> gs2 \<noteq> [] \<and> hd gs2 = url e \<and> length gs2 \<le> 9
          \<and> (tail = [] \<or> (\<exists>payload. tail = [WriteFile (pdfOutPath L e @ ''.tmp'') payload,
                                              Rename (pdfOutPath L e @ ''.tmp'') (pdfOutPath L e)]))"
    using downloadPdf_retry_trace [of net L e s res1 s1] by blast
  assume h2: "tryOnce net L (url e) (sleep 400 s1) = (Inr res2, s2) \<and> rejected res2"
  with h show d: "downloadPdf net L e s = (Inr (resultOf L e False res2), s2)"
    by (simp add: downloadPdf_retry)
  then show "downloadAll net L (e # es) s =
              (case downloadAll net L es (logged (resultOf L e False res2) s2) of
                 (Inl err, s3) \<Rightarrow> (Inl err, s3)
               | (Inr rs, s3) \<Rightarrow> (Inr ((e, resultOf L e False res2) # rs), s3))"
    by (rule downloadAll_step)
qed

theorem batch_one_retry_after_400ms_witness:
  "tryOnce htmlNet sampleLib (url entry012) (afterMkdir sampleLib entry012 start)
     = (Inr htmlPage, [], \<lparr>requests = 1,
          trace = [Mkdir ''/repo/download/car'', Get ''https://example.org/m012.pdf'']\<rparr>)
   \<and> rejected htmlPage
   \<and> tryOnce htmlNet sampleLib (url entry012)
        (sleep 400 ([], \<lparr>requests = 1,
          trace = [Mkdir ''/repo/download/car'', Get ''https://example.org/m012.pdf'']\<rparr>))
     = (Inr htmlPage, [], \<lparr>requests = 2,
          trace = [Mkdir ''/repo/download/car'', Get ''https://example.org/m012.pdf'', Sleep 400,
                   Get ''https://example.org/m012.pdf'']\<rparr>)
   \<and> downloadPdf htmlNet sampleLib entry012 start
     = (Inr \<lparr>ok = False, resPart = ''012'', resSize = 19, resMime = ''text/html'',
              resOutPath = ''/repo/download/car/Part_012_Consolidation.pdf''\<rparr>,
        [], \<lparr>requests = 2,
          trace = [Mkdir ''/repo/download/car'', Get ''https://example.org/m012.pdf'', Sleep 400,
                   Get ''https://example.org/m012.pdf'']\<rparr>)
   \<and> map (\<lambda>(e, r). (part e, ok r)) (the (report (main_download htmlNet sampleLib [entry012, entry087])))
     = [(12, False), (87, False)]
   \<and> exitCode (main_download htmlNet sampleLib [entry012, entry087]) = 0"
proof -
  let ?s1 = "([], \<lparr>requests = 1,
          trace = [Mkdir ''/repo/download/car'', Get ''https://example.org/m012.pdf'']\<rparr>)"
  let ?s2 = "([], \<lparr>requests = 2,
          trace = [Mkdir ''/repo/download/car'', Get ''https://example.org/m012.pdf'', Sleep 400,
                   Get ''https://example.org/m012.pdf'']\<rparr>)"
  have r1: "tryOnce htmlNet sampleLib (url entry012) (afterMkdir sampleLib entry012 start)
      = (Inr htmlPage, ?s1)"
    by (simp add: tryOnce_def fetchWithRedirects.simps redirectTarget_def afterMkdir_def emit_def start_def
        sampleLib_def entry012_def pdfOutPath_def computeDefaultPdfPath_def zeroPadPart_def
        padStart_def showNat.simps cookieHeader_def htmlNet_def htmlPage_def Let_def)
  have r2: "rejected htmlPage"
    by (simp add: rejected_def mimeType_def trim_def trimEnd_def isSpace_def htmlPage_def)
  have r3: "tryOnce htmlNet sampleLib (url entry012) (sleep 400 ?s1) = (Inr htmlPage, ?s2)"
    by (simp add: tryOnce_def fetchWithRedirects.simps redirectTarget_def sleep_def emit_def
        entry012_def cookieHeader_def htmlNet_def htmlPage_def Let_def)
  have res: "resultOf sampleLib entry012 False htmlPage
      = \<lparr>ok = False, resPart = ''012'', resSize = 19, resMime = ''text/html'',
              resOutPath = ''/repo/download/car/Part_012_Consolidation.pdf''\<rparr>"
    by (simp add: resultOf_def sampleLib_def entry012_def pdfOutPath_def computeDefaultPdfPath_def
        zeroPadPart_def padStart_def showNat.simps mimeType_def trim_def trimEnd_def isSpace_def
        htmlPage_def)
  have run: "map (\<lambda>(e, r). (part e, ok r)) (the (report (main_download htmlNet sampleLib [entry012, entry087])))
        = [(12, False), (87, False)]
      \<and> exitCode (main_download htmlNet sampleLib [entry012, entry087]) = 0"
    by (simp add: main_download_def warmSession_def downloadPdf_def tryOnce_def
        fetchWithRedirects.simps redirectTarget_def emit_def sleep_def sampleLib_def entry012_def entry087_def
        pdfOutPath_def computeDefaultPdfPath_def zeroPadPart_def padStart_def showNat.simps
        cookieHeader_def htmlNet_def htmlPage_def rejected_def mimeType_def trim_def trimEnd_def
        isSpace_def statusLine_def Let_def)
  from batch_one_retry_after_400ms [of htmlNet sampleLib entry012 start htmlPage ?s1 htmlPage ?s2
      "[entry087]"] r1 r2 r3
  have "downloadPdf htmlNet sampleLib entry012 start = (Inr (resultOf sampleLib entry012 False htmlPage), ?s2)"
    by blast
  with r1 r2 r3 res run show ?thesis by simp
qed

section \<open>The downloader of the Act\<close>

lemma caa_first:
  "fetchWithRedirects net L target 8 (caaStart L outPath w) = (Inr res1, s1) \<Longrightarrow>
   \<not> (rejected res1 \<and> \<not> looksLikePdf (body res1)) \<Longrightarrow>
   downloadPdf_caa net L target outPath w =
     (if looksLikePdf (body res1) then caaSaved outPath res1 (snd s1) else caaRefused res1 (snd s1))"
  by (auto simp: downloadPdf_caa_def caaStart_def caaSaved_def caaRefused_def Let_def)

lemma caa_retry:
  "fetchWithRedirects net L target 8 (caaStart L outPath w) = (Inr res1, s1) \<Longrightarrow>
   rejected res1 \<and> \<not> looksLikePdf (body res1) \<Longrightarrow>
   downloadPdf_caa net L target outPath w =
     (case fetchWithRedirects net L target 8 (sleep 400 s1) of
        (Inl err, s2) \<Rightarrow> (Inl err, snd s2)
      | (Inr res2, s2) \<Rightarrow>
          if looksLikePdf (body res2) then caaSaved outPath res2 (snd s2)
          else caaRefused res2 (snd s2))"
  by (auto simp: downloadPdf_caa_def caaStart_def caaSaved_def caaRefused_def Let_def
      split: prod.splits sum.splits)

text \<open>
  The downloader of the Act judges one response: the first, unless it fails both tests
  (type or size, and signature), and then the second, fetched once after 400 ms. It saves
  the payload if and only if that response begins with \<open>%PDF-\<close>, whatever its type and
  size, and otherwise ends with the error \<open>Unexpected response\<close>.
\<close>

theorem caa_download_by_signature:
  "(fetchWithRedirects net L target 8 (caaStart L outPath w) = (Inr res1, s1)
      \<and> \<not> (rejected res1 \<and> \<not> looksLikePdf (body res1))
      \<longrightarrow> downloadPdf_caa net L target outPath w =
            (if looksLikePdf (body res1) then caaSaved outPath res1 (snd s1)
             else caaRefused res1 (snd s1)))
   \<and> (fetchWithRedirects net L target 8 (caaStart L outPath w) = (Inr res1, s1)
        \<and> rejected res1 \<and> \<not> looksLikePdf (body res1)
        \<and> fetchWithRedirects net L target 8 (sleep 400 s1) = (Inr res2, s2)
      \<longrightarrow> downloadPdf_caa net L target outPath w =
            (if looksLikePdf (body res2) then caaSaved outPath res2 (snd s2)
             else caaRefused res2 (snd s2)))"
  using caa_first [of net L target outPath w res1 s1] caa_retry [of net L target outPath w res1 s1]
  by simp

theorem caa_download_by_signature_witness:
  "fetchWithRedirects tinyNet sampleLib ''https://example.org/act.pdf'' 8
       (caaStart sampleLib ''/repo/download/caa/act.pdf'' \<lparr>requests = 0, trace = []\<rparr>)
     = (Inr htmlPage, [], \<lparr>requests = 1,
          trace = [Mkdir ''/repo/download/caa'', Get ''https://example.org/act.pdf'']\<rparr>)
   \<and> rejected htmlPage \<and> \<not> looksLikePdf (body htmlPage)
   \<and> fetchWithRedirects tinyNet sampleLib ''https://example.org/act.pdf'' 8
       (sleep 400 ([], \<lparr>requests = 1,
          trace = [Mkdir ''/repo/download/caa'', Get ''https://example.org/act.pdf'']\<rparr>))
     = (Inr tinyPdf, [], \<lparr>requests = 2,
          trace = [Mkdir ''/repo/download/caa'', Get ''https://example.org/act.pdf'', Sleep 400,
                   Get ''https://example.org/act.pdf'']\<rparr>)
   \<and> looksLikePdf (body tinyPdf) \<and> rejected tinyPdf
   \<and> downloadPdf_caa tinyNet sampleLib ''https://example.org/act.pdf'' ''/repo/download/caa/act.pdf''
        \<lparr>requests = 0, trace = []\<rparr>
     = (Inr \<lparr>savedPath = ''/repo/download/caa/act.pdf'', savedBytes = 8, savedMime = ''text/html''\<rparr>,
        \<lparr>requests = 2,
          trace = [Mkdir ''/repo/download/caa'', Get ''https://example.org/act.pdf'', Sleep 400,
                   Get ''https://example.org/act.pdf'',
                   WriteFile ''/repo/download/caa/act.pdf.tmp'' ''%PDF-1.4'',
                   Rename ''/repo/download/caa/act.pdf.tmp'' ''/repo/download/caa/act.pdf'']\<rparr>)"
proof -
  let ?s1 = "([], \<lparr>requests = 1,
          trace = [Mkdir ''/repo/download/caa'', Get ''https://example.org/act.pdf'']\<rparr>)"
  let ?s2 = "([], \<lparr>requests = 2,
          trace = [Mkdir ''/repo/download/caa'', Get ''https://example.org/act.pdf'', Sleep 400,
                   Get ''https://example.org/act.pdf'']\<rparr>)"
  have a1: "fetchWithRedirects tinyNet sampleLib ''https://example.org/act.pdf'' 8
       (caaStart sampleLib ''/repo/download/caa/act.pdf'' \<lparr>requests = 0, trace = []\<rparr>)
     = (Inr htmlPage, ?s1)"
    by (simp add: fetchWithRedirects.simps redirectTarget_def caaStart_def emit_def sampleLib_def
        cookieHeader_def tinyNet_def htmlPage_def Let_def)
  have a2: "rejected htmlPage \<and> \<not> looksLikePdf (body htmlPage)"
    by (simp add: rejected_def looksLikePdf_def mimeType_def trim_def trimEnd_def isSpace_def
        htmlPage_def)
  have a3: "fetchWithRedirects tinyNet sampleLib ''https://example.org/act.pdf'' 8 (sleep 400 ?s1)
     = (Inr tinyPdf, ?s2)"
    by (simp add: fetchWithRedirects.simps redirectTarget_def sleep_def emit_def
        cookieHeader_def tinyNet_def tinyPdf_def Let_def)
  have a4: "looksLikePdf (body tinyPdf) \<and> rejected tinyPdf"
    by (simp add: rejected_def looksLikePdf_def mimeType_def trim_def trimEnd_def isSpace_def
        tinyPdf_def)
  have a5: "caaSaved ''/repo/download/caa/act.pdf'' tinyPdf (snd ?s2)
     = (Inr \<lparr>savedPath = ''/repo/download/caa/act.pdf'', savedBytes = 8, savedMime = ''text/html''\<rparr>,
        \<lparr>requests = 2,
          trace = [Mkdir ''/repo/download/caa'', Get ''https://example.org/act.pdf'', Sleep 400,
                   Get ''https://example.org/act.pdf'',
                   WriteFile ''/repo/download/caa/act.pdf.tmp'' ''%PDF-1.4'',
                   Rename ''/repo/download/caa/act.pdf.tmp'' ''/repo/download/caa/act.pdf'']\<rparr>)"
    by (simp add: caaSaved_def emit_def mimeType_def trim_def trimEnd_def isSpace_def tinyPdf_def)
  from caa_download_by_signature [of tinyNet sampleLib "''https://example.org/act.pdf''"
      "''/repo/download/caa/act.pdf''" "\<lparr>requests = 0, trace = []\<rparr>" htmlPage ?s1 tinyPdf ?s2]
    a1 a2 a3 a4
  have "downloadPdf_caa tinyNet sampleLib ''https://example.org/act.pdf'' ''/repo/download/caa/act.pdf''
        \<lparr>requests = 0, trace = []\<rparr> = caaSaved ''/repo/download/caa/act.pdf'' tinyPdf (snd ?s2)"
    by simp
  with a1 a2 a3 a4 a5 show ?thesis by simp
qed

section \<open>The redirect bound\<close>

lemma too_many_requests:
  "fst (fetchWithRedirects net L t m (jar, w)) = Inl TooManyRedirects \<Longrightarrow>
   requests (snd (snd (fetchWithRedirects net L t m (jar, w)))) = requests w + Suc m"
proof (induction m arbitrary: t jar w)
  case 0
  then show ?case
    by (auto simp: fetchWithRedirects.simps [of net L t 0] emit_def Let_def
        split: outcome.splits option.splits)
next
  case (Suc m)
  show ?case
  proof (cases "net (requests w) t (cookieHeader jar)")
    case (RequestError msg)
    with Suc.prems show ?thesis
      by (simp add: fetchWithRedirects.simps [of net L t "Suc m"])
  next
    case (Responds res)
    let ?jar1 = "case setCookie (headers res) of None \<Rightarrow> jar | Some cookies \<Rightarrow> foldl storeCookie jar cookies"
    let ?w1 = "emit (Get t) (w\<lparr>requests := requests w + 1\<rparr>)"
    show ?thesis
    proof (cases "redirectTarget res")
      case None
      with Responds Suc.prems show ?thesis
        by (simp add: fetchWithRedirects.simps [of net L t "Suc m"] Let_def)
    next
      case (Some loc)
      with Responds have eq: "fetchWithRedirects net L t (Suc m) (jar, w)
          = fetchWithRedirects net L (resolveUrl L loc t) m (?jar1, ?w1)"
        by (simp add: fetchWithRedirects.simps [of net L t "Suc m"] Let_def)
      with Suc.prems have "fst (fetchWithRedirects net L (resolveUrl L loc t) m (?jar1, ?w1))
          = Inl TooManyRedirects" by simp
      from Suc.IH [OF this] show ?thesis by (simp add: eq emit_def)
    qed
  qed
qed

text \<open>
  A fetch makes at least one request and at most \<open>maxRedirects + 1\<close>, the first of them
  to the URL it is given; it ends with \<open>Too many redirects\<close> only after exactly
  \<open>maxRedirects + 1\<close> requests. The downloaders call it with 8: nine requests at most.
\<close>

theorem fetch_redirect_bound:
  "(\<exists>gs. gs \<noteq> [] \<and> length gs \<le> Suc m \<and> hd gs = t
      \<and> trace (snd (snd (fetchWithRedirects net L t m (jar, w)))) = trace w @ map Get gs
      \<and> requests (snd (snd (fetchWithRedirects net L t m (jar, w)))) = requests w + length gs)
   \<and> (fst (fetchWithRedirects net L t m (jar, w)) = Inl TooManyRedirects
      \<longrightarrow> requests (snd (snd (fetchWithRedirects net L t m (jar, w)))) = requests w + Suc m)"
  using fetch_trace [of m t net L jar w] too_many_requests [of net L t m jar w] by blast

theorem fetch_redirect_bound_witness:
  "fetchWithRedirects loopNet sampleLib ''https://example.org/a'' 8 start
     = (Inl TooManyRedirects, [(''sid'', ''abc'')],
        \<lparr>requests = 9,
         trace = [Get ''https://example.org/a'', Get ''/again'', Get ''/again'', Get ''/again'',
                  Get ''/again'', Get ''/again'', Get ''/again'', Get ''/again'', Get ''/again'']\<rparr>)
   \<and> requests (snd (snd (fetchWithRedirects loopNet sampleLib ''https://example.org/a'' 8 start)))
     = requests (snd start) + Suc 8"
proof -
  have ev: "fetchWithRedirects loopNet sampleLib ''https://example.org/a'' 8 start
     = (Inl TooManyRedirects, [(''sid'', ''abc'')],
        \<lparr>requests = 9,
         trace = [Get ''https://example.org/a'', Get ''/again'', Get ''/again'', Get ''/again'',
                  Get ''/again'', Get ''/again'', Get ''/again'', Get ''/again'', Get ''/again'']\<rparr>)"
    by (simp add: fetchWithRedirects.simps redirectTarget_def start_def emit_def sampleLib_def
        cookieHeader_def storeCookie_def trim_def trimEnd_def isSpace_def loopNet_def Let_def
        eval_nat_numeral)
  with fetch_redirect_bound [of 8 "''https://example.org/a''" loopNet sampleLib "fst start" "snd start"]
  show ?thesis by (simp add: start_def)
qed

end
